theory Spec2Isabelle
  imports Complex_Main
begin

section \<open>Values shared by the components\<close>

text \<open>
  A JavaScript \<open>number\<close> holding an amount, a price or a USD value is modelled as the
  \<open>real\<close> it denotes; an integer count as an \<open>int\<close>. The rule evaluator converts decimal
  columns with \<open>Number(...)\<close> and multiplies two numbers: both results are IEEE-754
  doubles and are rounded by \<open>roundToDouble\<close> below. Elsewhere numbers are carried
  unchanged. The value NaN is outside the model. \<open>null\<close> and \<open>undefined\<close> are \<open>None\<close>.
\<close>

subsection \<open>IEEE-754 doubles\<close>

text \<open>The number of binary digits of a positive integer.\<close>

function bitLength :: "int \<Rightarrow> int" where
  "bitLength n = (if n \<le> 0 then 0 else 1 + bitLength (n div 2))"
  by pat_completeness auto
termination
  by (relation "measure nat") auto

declare bitLength.simps [simp del]

text \<open>The exponent \<open>e\<close> with \<open>2 ^ e \<le> a < 2 ^ (e + 1)\<close>, for \<open>a > 0\<close>.\<close>

definition binade :: "real \<Rightarrow> int" where
  "binade a =
     (if a \<ge> 1 then bitLength \<lfloor>a\<rfloor> - 1 else - bitLength (\<lceil>1 / a\<rceil> - 1))"

definition pow2 :: "int \<Rightarrow> real" where
  "pow2 e = (if e \<ge> 0 then 2 ^ nat e else 1 / 2 ^ nat (- e))"

text \<open>The nearest integer, a tie going to the even one.\<close>

definition roundHalfEven :: "real \<Rightarrow> int" where
  "roundHalfEven x =
     (let f = \<lfloor>x\<rfloor>; r = x - of_int f
      in if r < 1 / 2 then f else if r > 1 / 2 then f + 1 else if even f then f else f + 1)"

text \<open>
  The double nearest to a real, ties to even, as \<open>Number(decimal)\<close> (which reads the
  decimal's digits, correctly rounded in Node.js) and the multiplication of two
  doubles deliver it: 53 significant bits, the exponent no lower
  than that of the subnormal numbers; a result beyond the largest double is
  \<open>Infinity\<close>, for which \<open>2 ^ 1024\<close> stands (it compares above every double).
\<close>

definition roundToDouble :: "real \<Rightarrow> real" where
  "roundToDouble x =
     (if x = 0 then 0
      else
        (let a = \<bar>x\<bar>;
             e = max (binade a) (- 1022);
             q = pow2 (e - 52);
             m = roundHalfEven (a / q);
             y = (if e > 1023 \<or> (e = 1023 \<and> m \<ge> 9007199254740992) then pow2 1024
                  else of_int m * q)
         in if x < 0 then - y else y))"

subsection \<open>Rules, snapshots and evaluations\<close>

datatype RuleType = TOKEN_AMOUNT | TOKEN_USD | NFT_COLLECTION

text \<open>The row of table \<open>gating_rules\<close>: a wide row with nullable columns.\<close>

record GatingRule =
  r_id :: string
  r_guildId :: string
  r_type :: RuleType
  r_mint :: "string option"
  r_collection :: "string option"
  r_thresholdAmount :: "real option"
  r_thresholdUsd :: "real option"
  r_thresholdCount :: "int option"
  r_roleId :: string
  r_priceAssetId :: "string option"
  r_enabled :: bool

record WalletSnapshot =
  wallet :: string
  tokenBalancesByMint :: "string \<rightharpoonup> real"
  nftCountsByCollection :: "string \<rightharpoonup> int"

text \<open>
  The \<open>reason\<close> of an evaluation is a template literal; it is kept as the template's
  tag with its operands, in the order the template prints them. \<open>ReasonText\<close> is a
  string literal of the source.
\<close>

datatype Reason =
    ReasonTokenAmount real real string
  | ReasonUsdMissingPrice string
  | ReasonTokenUsd real real real real string
  | ReasonNftCollection int int string
  | ReasonText string

record EvaluationResult =
  ruleId :: string
  roleId :: string
  satisfied :: "bool option"
  reason :: Reason

record RoleDecision =
  d_roleId :: string
  shouldHave :: "bool option"
  matchedRuleIds :: "string list"

section \<open>Rule evaluator (src/rules/evaluator.ts)\<close>

text \<open>The operator \<open>x ?? d\<close>.\<close>

definition nullish :: "'a option \<Rightarrow> 'a \<Rightarrow> 'a" where
  "nullish x d = (case x of None \<Rightarrow> d | Some v \<Rightarrow> v)"

text \<open>
  \<open>thresholdAmount\<close> and \<open>thresholdUsd\<close> are decimals of the database, exact; \<open>Number\<close>
  rounds them. \<open>thresholdCount\<close> is a 32-bit integer column and counts are integers,
  which \<open>Number\<close> and the comparison leave exact. Balances and prices are numbers
  already.
\<close>

definition evaluateRule ::
  "GatingRule \<Rightarrow> WalletSnapshot \<Rightarrow> (string \<rightharpoonup> real) \<Rightarrow> EvaluationResult" where
  "evaluateRule rule snapshot pricesUsdByAssetId =
    (if r_type rule = TOKEN_AMOUNT then
       (let threshold = roundToDouble (nullish (r_thresholdAmount rule) 0);
            mint = nullish (r_mint rule) '''';
            balance = nullish (tokenBalancesByMint snapshot mint) 0;
            sat = (balance \<ge> threshold)
        in \<lparr>ruleId = r_id rule, roleId = r_roleId rule, satisfied = Some sat,
             reason = ReasonTokenAmount balance threshold mint\<rparr>)
     else if r_type rule = TOKEN_USD then
       (let thresholdUsd = roundToDouble (nullish (r_thresholdUsd rule) 0);
            mint = nullish (r_mint rule) '''';
            balance = nullish (tokenBalancesByMint snapshot mint) 0;
            assetId = nullish (r_priceAssetId rule) ''''
        in case pricesUsdByAssetId assetId of
             None \<Rightarrow>
               \<lparr>ruleId = r_id rule, roleId = r_roleId rule, satisfied = None,
                reason = ReasonUsdMissingPrice assetId\<rparr>
           | Some price \<Rightarrow>
               (let valueUsd = roundToDouble (balance * price);
                    sat = (valueUsd \<ge> thresholdUsd)
                in \<lparr>ruleId = r_id rule, roleId = r_roleId rule, satisfied = Some sat,
                     reason = ReasonTokenUsd balance price valueUsd thresholdUsd mint\<rparr>))
     else
       (let thresholdCount = nullish (r_thresholdCount rule) 0;
            collection = nullish (r_collection rule) '''';
            count = nullish (nftCountsByCollection snapshot collection) 0;
            sat = (count \<ge> thresholdCount)
        in \<lparr>ruleId = r_id rule, roleId = r_roleId rule, satisfied = Some sat,
             reason = ReasonNftCollection count thresholdCount collection\<rparr>))"

definition evaluateRules ::
  "GatingRule list \<Rightarrow> WalletSnapshot \<Rightarrow> (string \<rightharpoonup> real) \<Rightarrow> EvaluationResult list" where
  "evaluateRules rules snapshot pricesUsdByAssetId =
     map (\<lambda>rule. evaluateRule rule snapshot pricesUsdByAssetId) rules"

text \<open>
  \<open>byRole\<close> is a JavaScript \<open>Map\<close>, which iterates in insertion order: an association
  list whose keys are distinct. \<open>byRole_add\<close> is one turn of the first loop,
  \<open>byRole.set(roleId, (byRole.get(roleId) ?? []).push(evaluation))\<close>: the entry of an
  existing key is replaced where it stands, a new key is appended.
\<close>

fun byRole_set ::
  "(string \<times> EvaluationResult list) list \<Rightarrow> string \<Rightarrow> EvaluationResult list
     \<Rightarrow> (string \<times> EvaluationResult list) list" where
  "byRole_set [] k v = [(k, v)]"
| "byRole_set ((k', v') # m) k v = (if k' = k then (k, v) # m else (k', v') # byRole_set m k v)"

definition byRole_add ::
  "(string \<times> EvaluationResult list) list \<Rightarrow> EvaluationResult
     \<Rightarrow> (string \<times> EvaluationResult list) list" where
  "byRole_add byRole evaluation =
     (let lst = nullish (map_of byRole (roleId evaluation)) []
      in byRole_set byRole (roleId evaluation) (lst @ [evaluation]))"

definition decisionOf :: "string \<times> EvaluationResult list \<Rightarrow> RoleDecision" where
  "decisionOf entry =
     (case entry of (role, evals) \<Rightarrow>
        (let hasTrue = list_ex (\<lambda>e. satisfied e = Some True) evals;
             hasNull = list_ex (\<lambda>e. satisfied e = None) evals;
             sh = (if hasTrue then Some True else if hasNull then None else Some False)
         in \<lparr>d_roleId = role, shouldHave = sh,
              matchedRuleIds = map ruleId (filter (\<lambda>e. satisfied e = Some True) evals)\<rparr>))"

definition computeRoleDecisions :: "EvaluationResult list \<Rightarrow> RoleDecision list" where
  "computeRoleDecisions evaluations = map decisionOf (foldl byRole_add [] evaluations)"

section \<open>Chain-holdings adapter (src/solana/holdingsService.ts)\<close>

text \<open>
  A value of TypeScript type \<open>unknown\<close>, as \<open>JSON.parse\<close> can produce it. \<open>JUndefined\<close>
  is an absent property, \<open>JNonFinite\<close> a number that is not finite (\<open>1e999\<close> parses to
  \<open>Infinity\<close>, \<open>-1e999\<close> to \<open>-Infinity\<close>; the flag is true for the positive one),
  \<open>JObject\<close> an object or array, told from every other one by its number.
\<close>

datatype jsval =
  JUndefined | JNull | JBool bool | JNum real | JNonFinite bool | JStr string | JObject nat

text \<open>The truthiness of a value, as \<open>if (x)\<close>, \<open>x && y\<close> and \<open>!x\<close> test it.\<close>

fun truthy :: "jsval \<Rightarrow> bool" where
  "truthy JUndefined = False"
| "truthy JNull = False"
| "truthy (JBool b) = b"
| "truthy (JNum n) = (n \<noteq> 0)"
| "truthy (JNonFinite positive) = True"
| "truthy (JStr s) = (s \<noteq> '''')"
| "truthy (JObject i) = True"

text \<open>
  One entry of \<open>asset.grouping\<close>, a \<open>Record<string, unknown>\<close>, by the four properties
  the code reads.
\<close>

record DasGroup =
  group_key :: jsval
  group_value :: jsval
  verified :: jsval
  collection_verified :: jsval

text \<open>
  \<open>asset.content?.metadata?.collection\<close>, by the two properties the code reads. The
  response is cast to its declared type without validation, so either property can
  hold any value.
\<close>

record DasCollection =
  c_key :: jsval
  c_verified :: jsval

text \<open>
  \<open>grouping\<close> is \<open>None\<close> when the property is not an array; \<open>collection\<close> is \<open>None\<close>
  when \<open>content\<close>, \<open>metadata\<close> or \<open>collection\<close> is \<open>null\<close> or missing. The items of a
  page and the entries of \<open>grouping\<close> are taken to be objects.
\<close>

record DasAsset =
  grouping :: "DasGroup list option"
  collection :: "DasCollection option"

text \<open>The \<open>for\<close> loop over \<open>grouping\<close>: the first entry that passes the test returns.\<close>

fun firstVerifiedGroup :: "DasGroup list \<Rightarrow> string option" where
  "firstVerifiedGroup [] = None"
| "firstVerifiedGroup (g # gs) =
     (case group_value g of
        JStr v \<Rightarrow>
          (if group_key g = JStr ''collection'' \<and>
              (verified g = JBool True \<or> collection_verified g = JBool True)
           then Some v else firstVerifiedGroup gs)
      | _ \<Rightarrow> firstVerifiedGroup gs)"

text \<open>
  The result is the group value, the metadata's key as it is (line 46 tests
  \<open>collection?.verified && collection.key\<close> for truthiness only), or \<open>null\<close>.
\<close>

definition extractVerifiedCollectionAddress :: "DasAsset \<Rightarrow> jsval" where
  "extractVerifiedCollectionAddress asset =
     (case firstVerifiedGroup (nullish (grouping asset) []) of
        Some v \<Rightarrow> JStr v
      | None \<Rightarrow>
          (case collection asset of
             None \<Rightarrow> JNull
           | Some c \<Rightarrow>
               (if truthy (c_verified c) \<and> truthy (c_key c) then c_key c else JNull)))"

text \<open>
  One turn of the loop over the items of a page: \<open>!collection\<close> holds for \<open>null\<close> and for
  the empty string. \<open>counts\<close> is a \<open>Map\<close>, whose keys are the values themselves.
\<close>

definition countItem :: "(jsval \<rightharpoonup> int) \<Rightarrow> DasAsset \<Rightarrow> (jsval \<rightharpoonup> int)" where
  "countItem counts item =
     (let c = extractVerifiedCollectionAddress item
      in if \<not> truthy c then counts else counts(c \<mapsto> nullish (counts c) 0 + 1))"

definition countItems :: "(jsval \<rightharpoonup> int) \<Rightarrow> DasAsset list \<Rightarrow> (jsval \<rightharpoonup> int)" where
  "countItems counts items = foldl countItem counts items"

datatype error = Error string | LibraryError string

text \<open>
  The paging loop of \<open>fetchNftCountsByCollection\<close>. \<open>das page\<close> is the outcome of the
  retried request for that page: \<open>None\<close> when it throws, otherwise
  \<open>data.result?.items ?? []\<close>. The loop ends at the first page shorter than the limit and
  need not end at all, so not returning is the value \<open>None\<close>.
\<close>

partial_function (option) fetchNftPages ::
  "(nat \<Rightarrow> DasAsset list option) \<Rightarrow> nat \<Rightarrow> (jsval \<rightharpoonup> int)
     \<Rightarrow> (error + (jsval \<rightharpoonup> int)) option" where
  "fetchNftPages das page counts =
     (case das page of
        None \<Rightarrow> Some (Inl (Error ''DAS request failed''))
      | Some items \<Rightarrow>
          (if length items < 1000 then Some (Inr (countItems counts items))
           else fetchNftPages das (page + 1) (countItems counts items)))"

definition fetchNftCountsByCollection ::
  "(nat \<Rightarrow> DasAsset list option) \<Rightarrow> (error + (jsval \<rightharpoonup> int)) option" where
  "fetchNftCountsByCollection das = fetchNftPages das 1 Map.empty"

section \<open>Persistent state and external collaborators\<close>

text \<open>
  Points in time are milliseconds since the epoch. The columns \<open>id\<close>, \<open>timestamp\<close>,
  \<open>created_at\<close> and \<open>updated_at\<close> that the database fills in are left out where no
  operation reads them.
\<close>

datatype AuditAction = ROLE_ADDED | ROLE_REMOVED | VERIFY_SUCCESS | VERIFY_REPLACED | VERIFY_UNLINKED

record WalletLink =
  l_id :: string
  l_guildId :: string
  l_discordUserId :: string
  l_walletPubkey :: string
  l_verifiedAt :: int
  l_lastCheckedAt :: "int option"

record VerifySession =
  s_id :: string
  s_guildId :: string
  s_discordUserId :: string
  s_nonce :: string
  s_challengeMessage :: string
  s_expiresAt :: int
  s_usedAt :: "int option"

record AuditEntry =
  a_guildId :: string
  a_discordUserId :: string
  a_roleId :: string
  a_action :: AuditAction
  a_reason :: Reason
  a_ruleId :: "string option"

record PriceQuote =
  q_assetId :: string
  q_priceUsd :: real
  q_fetchedAt :: int

text \<open>A REST request to the chat platform: guild, member, role.\<close>

datatype RoleRequest = RoleAdd string string string | RoleRemove string string string

text \<open>
  The tables of the database, each in row order, and the two logs of outgoing requests:
  \<open>priceRequests\<close> holds the id list of every request sent to the price provider,
  \<open>roleRequests\<close> every role add or remove sent to the chat platform, oldest first.
\<close>

record World =
  walletLinks :: "WalletLink list"
  verifySessions :: "VerifySession list"
  gatingRules :: "GatingRule list"
  auditLog :: "AuditEntry list"
  priceCache :: "PriceQuote list"
  priceRequests :: "string list list"
  roleRequests :: "RoleRequest list"

record Role =
  role_id :: string
  position :: int

record BotMember =
  hasManageRoles :: bool
  highest :: Role

record GuildMember =
  m_rolesCache :: "string set"

text \<open>
  A guild as \<open>guilds.fetch\<close> returns it: \<open>g_me\<close> is \<open>guild.members.me\<close>,
  \<open>g_fetchMeFails\<close> says that \<open>guild.members.fetchMe()\<close> throws, \<open>g_roles\<close> and
  \<open>g_members\<close> are \<open>roles.fetch(id).catch(() => null)\<close> and
  \<open>members.fetch(id).catch(() => null)\<close>.
\<close>

record Guild =
  g_me :: "BotMember option"
  g_fetchMeFails :: bool
  g_roles :: "string \<rightharpoonup> Role"
  g_members :: "string \<rightharpoonup> GuildMember"

datatype JwtPayload = JwtThrows | JwtNotObject | JwtClaims "string option" "string option" "string option"

text \<open>
  What the libraries and services outside the repository answer during one operation:
  the clock (read as one instant), \<open>jwt.verify\<close>, the Ed25519 check on the base58 inputs
  (\<open>None\<close> when decoding or the check throws), whether the wallet-link upsert throws, the
  id the database gives a new row, the price provider's JSON (per id the value of its
  \<open>usd\<close> property, \<open>None\<close> for the whole answer when the request fails), the chat
  platform, the wallet snapshot (\<open>None\<close> when \<open>getWalletSnapshot\<close> throws), whether a
  role request throws, and \<open>Role.comparePositionTo\<close>.
\<close>

record Env =
  now :: int
  jwtVerify :: "string \<Rightarrow> JwtPayload"
  verifyDetached :: "string \<Rightarrow> string \<Rightarrow> string \<Rightarrow> bool option"
  walletUpsertFails :: bool
  freshId :: string
  fetchSimplePrice :: "string list \<Rightarrow> (string \<rightharpoonup> jsval) option"
  guildsFetch :: "string \<rightharpoonup> Guild"
  getWalletSnapshot :: "string \<Rightarrow> bool \<Rightarrow> bool \<Rightarrow> WalletSnapshot option"
  roleCallFails :: "RoleRequest \<Rightarrow> bool"
  comparePositionTo :: "Role \<Rightarrow> Role \<Rightarrow> int"

definition writeAuditLog :: "World \<Rightarrow> AuditEntry \<Rightarrow> World" where
  "writeAuditLog w entry = w\<lparr>auditLog := auditLog w @ [entry]\<rparr>"

section \<open>Price cache (CoinGeckoClient)\<close>

text \<open>\<open>[...new Set(assetIds.filter(Boolean))]\<close>: first occurrences, in order.\<close>

definition uniqueIds :: "string list \<Rightarrow> string list" where
  "uniqueIds assetIds = rev (remdups (rev (filter (\<lambda>s. s \<noteq> '''') assetIds)))"

definition cachedRows :: "nat \<Rightarrow> Env \<Rightarrow> World \<Rightarrow> string list \<Rightarrow> PriceQuote list" where
  "cachedRows ttlSeconds env w ids =
     filter (\<lambda>row. q_assetId row \<in> set ids \<and> q_fetchedAt row \<ge> now env - int ttlSeconds * 1000)
       (priceCache w)"

definition cachedResult :: "PriceQuote list \<Rightarrow> (string \<rightharpoonup> real)" where
  "cachedResult rows = foldl (\<lambda>m row. m(q_assetId row \<mapsto> q_priceUsd row)) Map.empty rows"

text \<open>\<open>json[id]?.usd\<close> when it is a finite number.\<close>

definition finiteQuote :: "(string \<rightharpoonup> jsval) \<Rightarrow> string \<Rightarrow> real option" where
  "finiteQuote json i = (case json i of Some (JNum p) \<Rightarrow> Some p | _ \<Rightarrow> None)"

fun priceCache_upsert :: "PriceQuote list \<Rightarrow> PriceQuote \<Rightarrow> PriceQuote list" where
  "priceCache_upsert [] u = [u]"
| "priceCache_upsert (r # rs) u =
     (if q_assetId r = q_assetId u then u # rs else r # priceCache_upsert rs u)"

definition getUsdPrices ::
  "nat \<Rightarrow> Env \<Rightarrow> World \<Rightarrow> string list \<Rightarrow> (error + (string \<rightharpoonup> real)) \<times> World" where
  "getUsdPrices ttlSeconds env w assetIds =
     (let uniq = uniqueIds assetIds in
      if uniq = [] then (Inr Map.empty, w)
      else
        (let cached = cachedRows ttlSeconds env w uniq;
             result = cachedResult cached;
             missing = filter (\<lambda>i. result i = None) uniq
         in if missing = [] then (Inr result, w)
            else
              (let w1 = w\<lparr>priceRequests := priceRequests w @ [missing]\<rparr>
               in case fetchSimplePrice env missing of
                    None \<Rightarrow> (Inl (Error ''CoinGecko request failed''), w1)
                  | Some json \<Rightarrow>
                      (let result' =
                             foldl (\<lambda>m i. case finiteQuote json i of
                                             None \<Rightarrow> m | Some p \<Rightarrow> m(i \<mapsto> p)) result missing;
                           updates =
                             List.map_filter
                               (\<lambda>i. map_option
                                      (\<lambda>p. \<lparr>q_assetId = i, q_priceUsd = p, q_fetchedAt = now env\<rparr>)
                                      (finiteQuote json i)) missing
                       in (Inr result',
                           w1\<lparr>priceCache := foldl priceCache_upsert (priceCache w1) updates\<rparr>)))))"

section \<open>Verification protocol (src/services/verifyService.ts)\<close>

record VerifyTokenPayload =
  p_guildId :: string
  p_discordUserId :: string
  p_sessionId :: string

definition decodeVerifyToken :: "Env \<Rightarrow> string \<Rightarrow> error + VerifyTokenPayload" where
  "decodeVerifyToken env tok =
     (case jwtVerify env tok of
        JwtThrows \<Rightarrow> Inl (LibraryError ''jsonwebtoken'')
      | JwtNotObject \<Rightarrow> Inl (Error ''Invalid verify token payload'')
      | JwtClaims g u s \<Rightarrow>
          (case (g, u, s) of
             (Some g', Some u', Some s') \<Rightarrow>
               (if g' = '''' \<or> u' = '''' \<or> s' = ''''
                then Inl (Error ''Missing verify token claims'')
                else Inr \<lparr>p_guildId = g', p_discordUserId = u', p_sessionId = s'\<rparr>)
           | _ \<Rightarrow> Inl (Error ''Missing verify token claims'')))"

definition findSession :: "World \<Rightarrow> string \<Rightarrow> VerifySession option" where
  "findSession w sid = find (\<lambda>s. s_id s = sid) (verifySessions w)"

definition findWalletLink :: "World \<Rightarrow> string \<Rightarrow> string \<Rightarrow> WalletLink option" where
  "findWalletLink w guildId discordUserId =
     find (\<lambda>l. l_guildId l = guildId \<and> l_discordUserId l = discordUserId) (walletLinks w)"

record SubmitInput =
  token :: string
  walletPubkey :: string
  signatureBase58 :: string

record SubmitResult =
  sr_guildId :: string
  sr_discordUserId :: string
  replaced :: bool

text \<open>
  \<open>submitVerifySignature\<close> is cut at its \<open>await\<close>s on the database, where another request
  can run. \<open>submit_load\<close> is the code up to the signature check: it decodes the token,
  reads the session row and tests the copy it has read.
\<close>

definition submit_load :: "Env \<Rightarrow> World \<Rightarrow> SubmitInput \<Rightarrow> error + VerifySession" where
  "submit_load env w input =
     (case decodeVerifyToken env (token input) of
        Inl e \<Rightarrow> Inl e
      | Inr payload \<Rightarrow>
          (case findSession w (p_sessionId payload) of
             None \<Rightarrow> Inl (Error ''Verify session not found'')
           | Some session \<Rightarrow>
               (if s_usedAt session \<noteq> None then Inl (Error ''Verify session already used'')
                else if s_expiresAt session < now env then Inl (Error ''Verify session expired'')
                else
                  (case verifyDetached env (s_challengeMessage session)
                          (signatureBase58 input) (walletPubkey input) of
                     None \<Rightarrow> Inl (LibraryError ''bs58/tweetnacl'')
                   | Some valid \<Rightarrow>
                       (if \<not> valid then Inl (Error ''Invalid wallet signature'')
                        else Inr session)))))"

text \<open>\<open>prisma.verifySession.update\<close> by id: it throws when no row has the id.\<close>

definition markSessionUsed :: "Env \<Rightarrow> World \<Rightarrow> VerifySession \<Rightarrow> error + World" where
  "markSessionUsed env w session =
     (if \<not> list_ex (\<lambda>s. s_id s = s_id session) (verifySessions w)
      then Inl (LibraryError ''prisma'')
      else Inr (w\<lparr>verifySessions :=
                  map (\<lambda>s. if s_id s = s_id session then s\<lparr>s_usedAt := Some (now env)\<rparr> else s)
                    (verifySessions w)\<rparr>))"

text \<open>\<open>prisma.walletLink.upsert\<close> on the unique pair of guild and member.\<close>

definition upsertWalletLink :: "Env \<Rightarrow> World \<Rightarrow> VerifySession \<Rightarrow> SubmitInput \<Rightarrow> error + World" where
  "upsertWalletLink env w session input =
     (if walletUpsertFails env then Inl (LibraryError ''prisma'')
      else if list_ex (\<lambda>l. l_guildId l = s_guildId session \<and>
                           l_discordUserId l = s_discordUserId session) (walletLinks w)
      then Inr (w\<lparr>walletLinks :=
                  map (\<lambda>l. if l_guildId l = s_guildId session \<and>
                              l_discordUserId l = s_discordUserId session
                           then l\<lparr>l_walletPubkey := walletPubkey input, l_verifiedAt := now env\<rparr>
                           else l) (walletLinks w)\<rparr>)
      else Inr (w\<lparr>walletLinks := walletLinks w @
                  [\<lparr>l_id = freshId env, l_guildId = s_guildId session,
                    l_discordUserId = s_discordUserId session,
                    l_walletPubkey = walletPubkey input, l_verifiedAt = now env,
                    l_lastCheckedAt = None\<rparr>]\<rparr>))"

text \<open>
  \<open>submit_finish\<close> is the rest of the function, run with the session object that
  \<open>submit_load\<close> has read: look the existing link up, mark the session used, upsert the
  link, write the audit entry.
\<close>

definition submit_finish ::
  "Env \<Rightarrow> World \<Rightarrow> VerifySession \<Rightarrow> SubmitInput \<Rightarrow> (error + SubmitResult) \<times> World" where
  "submit_finish env w session input =
     (let existing = findWalletLink w (s_guildId session) (s_discordUserId session)
      in case markSessionUsed env w session of
           Inl e \<Rightarrow> (Inl e, w)
         | Inr w1 \<Rightarrow>
             (case upsertWalletLink env w1 session input of
                Inl e \<Rightarrow> (Inl e, w1)
              | Inr w2 \<Rightarrow>
                  (let rep = (case existing of
                                None \<Rightarrow> False
                              | Some l \<Rightarrow> l_walletPubkey l \<noteq> walletPubkey input);
                       w3 = writeAuditLog w2
                              \<lparr>a_guildId = s_guildId session,
                               a_discordUserId = s_discordUserId session,
                               a_roleId = ''-'',
                               a_action = (if rep then VERIFY_REPLACED else VERIFY_SUCCESS),
                               a_reason =
                                 (if rep
                                  then ReasonText (''wallet replaced '' @
                                         (case existing of None \<Rightarrow> ''undefined''
                                          | Some l \<Rightarrow> l_walletPubkey l) @
                                         '' -> '' @ walletPubkey input)
                                  else ReasonText (''wallet verified '' @ walletPubkey input)),
                               a_ruleId = None\<rparr>
                   in (Inr \<lparr>sr_guildId = s_guildId session,
                            sr_discordUserId = s_discordUserId session,
                            replaced = rep\<rparr>, w3))))"

definition submitVerifySignature ::
  "Env \<Rightarrow> World \<Rightarrow> SubmitInput \<Rightarrow> (error + SubmitResult) \<times> World" where
  "submitVerifySignature env w input =
     (case submit_load env w input of
        Inl e \<Rightarrow> (Inl e, w)
      | Inr session \<Rightarrow> submit_finish env w session input)"

text \<open>
  The source reports a failure by its message only. The three messages of a missing, an
  already used and an expired session are what the specification's error taxonomy calls
  \<open>SESSION_INVALID\<close>.
\<close>

definition sessionInvalid :: "error \<Rightarrow> bool" where
  "sessionInvalid e \<longleftrightarrow>
     e = Error ''Verify session not found'' \<or>
     e = Error ''Verify session already used'' \<or>
     e = Error ''Verify session expired''"

text \<open>
  Two requests served by one process, the second arriving while the first waits for the
  database after its signature check: both read the session, then each finishes.
\<close>

definition submit_interleaved ::
  "Env \<Rightarrow> World \<Rightarrow> SubmitInput \<Rightarrow> SubmitInput
     \<Rightarrow> (error + SubmitResult) \<times> (error + SubmitResult) \<times> World" where
  "submit_interleaved env w first second =
     (let loaded1 = submit_load env w first;
          loaded2 = submit_load env w second;
          (res1, w1) = (case loaded1 of Inl e \<Rightarrow> (Inl e, w)
                        | Inr session \<Rightarrow> submit_finish env w session first);
          (res2, w2) = (case loaded2 of Inl e \<Rightarrow> (Inl e, w1)
                        | Inr session \<Rightarrow> submit_finish env w1 session second)
      in (res1, res2, w2))"

record UnlinkResult =
  deleted :: bool
  ur_wallet :: "string option"

definition unlinkWallet :: "World \<Rightarrow> string \<Rightarrow> string \<Rightarrow> UnlinkResult \<times> World" where
  "unlinkWallet w guildId discordUserId =
     (case findWalletLink w guildId discordUserId of
        None \<Rightarrow> (\<lparr>deleted = False, ur_wallet = None\<rparr>, w)
      | Some existing \<Rightarrow>
          (let w1 = w\<lparr>walletLinks := filter (\<lambda>l. l_id l \<noteq> l_id existing) (walletLinks w)\<rparr>;
               w2 = writeAuditLog w1
                      \<lparr>a_guildId = guildId, a_discordUserId = discordUserId, a_roleId = ''-'',
                       a_action = VERIFY_UNLINKED,
                       a_reason = ReasonText (''wallet unlinked '' @ l_walletPubkey existing),
                       a_ruleId = None\<rparr>
           in (\<lparr>deleted = True, ur_wallet = Some (l_walletPubkey existing)\<rparr>, w2)))"

section \<open>Reconciliation worker (GatingWorker)\<close>

definition canManageRole :: "Env \<Rightarrow> Guild \<Rightarrow> Role \<Rightarrow> bool" where
  "canManageRole env guild role =
     (case g_me guild of
        None \<Rightarrow> False
      | Some botMember \<Rightarrow>
          (if \<not> hasManageRoles botMember then False
           else comparePositionTo env (highest botMember) role > 0))"

text \<open>
  A role request is logged when it is sent; when it throws, the \<open>catch\<close> only logs a
  warning and the audit entry after it is not written.
\<close>

definition syncRoleDecision ::
  "Env \<Rightarrow> World \<Rightarrow> Guild \<Rightarrow> GuildMember \<Rightarrow> string \<Rightarrow> string \<Rightarrow> RoleDecision
     \<Rightarrow> EvaluationResult list \<Rightarrow> World" where
  "syncRoleDecision env w guild member guildId discordUserId decision evaluations =
     (case shouldHave decision of
        None \<Rightarrow> w
      | Some sh \<Rightarrow>
          (case g_roles guild (d_roleId decision) of
             None \<Rightarrow> w
           | Some role \<Rightarrow>
               (if \<not> canManageRole env guild role then w
                else
                  (let currentlyHasRole = (d_roleId decision \<in> m_rolesCache member)
                   in if sh \<and> \<not> currentlyHasRole then
                        (let call = RoleAdd guildId discordUserId (d_roleId decision);
                             w1 = w\<lparr>roleRequests := roleRequests w @ [call]\<rparr>
                         in if roleCallFails env call then w1
                            else
                              (let matched =
                                     find (\<lambda>e. roleId e = d_roleId decision \<and>
                                                satisfied e = Some True) evaluations
                               in writeAuditLog w1
                                    \<lparr>a_guildId = guildId, a_discordUserId = discordUserId,
                                     a_roleId = d_roleId decision, a_action = ROLE_ADDED,
                                     a_reason =
                                       (case matched of
                                          None \<Rightarrow> ReasonText ''role added by gating''
                                        | Some m \<Rightarrow> reason m),
                                     a_ruleId = map_option ruleId matched\<rparr>))
                      else if \<not> sh \<and> currentlyHasRole then
                        (let call = RoleRemove guildId discordUserId (d_roleId decision);
                             w1 = w\<lparr>roleRequests := roleRequests w @ [call]\<rparr>
                         in if roleCallFails env call then w1
                            else writeAuditLog w1
                                   \<lparr>a_guildId = guildId, a_discordUserId = discordUserId,
                                    a_roleId = d_roleId decision, a_action = ROLE_REMOVED,
                                    a_reason = ReasonText ''no active rule satisfied for role'',
                                    a_ruleId = None\<rparr>)
                      else w))))"

text \<open>The loop \<open>for (const decision of decisions)\<close> of \<open>runUserCheck\<close>.\<close>

definition syncRoleDecisions ::
  "Env \<Rightarrow> World \<Rightarrow> Guild \<Rightarrow> GuildMember \<Rightarrow> string \<Rightarrow> string \<Rightarrow> RoleDecision list
     \<Rightarrow> EvaluationResult list \<Rightarrow> World" where
  "syncRoleDecisions env w guild member guildId discordUserId decisions evaluations =
     foldl (\<lambda>w' decision.
              syncRoleDecision env w' guild member guildId discordUserId decision evaluations)
       w decisions"

text \<open>\<open>prisma.walletLink.update\<close> by id, setting \<open>lastCheckedAt\<close>.\<close>

definition touchLastChecked :: "Env \<Rightarrow> World \<Rightarrow> string \<Rightarrow> World" where
  "touchLastChecked env w linkId =
     w\<lparr>walletLinks :=
         map (\<lambda>l. if l_id l = linkId then l\<lparr>l_lastCheckedAt := Some (now env)\<rparr> else l)
           (walletLinks w)\<rparr>"

definition activeRules :: "World \<Rightarrow> string \<Rightarrow> GatingRule list" where
  "activeRules w guildId = filter (\<lambda>r. r_guildId r = guildId \<and> r_enabled r) (gatingRules w)"

definition usdRuleAssetIds :: "GatingRule list \<Rightarrow> string list" where
  "usdRuleAssetIds rules =
     List.map_filter (\<lambda>v. if v = Some '''' then None else v)
       (map r_priceAssetId (filter (\<lambda>rule. r_type rule = TOKEN_USD) rules))"

definition needsTokenSnapshot :: "GatingRule list \<Rightarrow> bool" where
  "needsTokenSnapshot rules =
     list_ex (\<lambda>rule. r_type rule = TOKEN_AMOUNT \<or> r_type rule = TOKEN_USD) rules"

definition needsNftSnapshot :: "GatingRule list \<Rightarrow> bool" where
  "needsNftSnapshot rules = list_ex (\<lambda>rule. r_type rule = NFT_COLLECTION) rules"

text \<open>
  \<open>runUserCheck\<close>; the worker's price client has a TTL of 60 seconds. The promise is
  rejected only when \<open>fetchMe\<close> throws.
\<close>

definition runUserCheck ::
  "Env \<Rightarrow> World \<Rightarrow> string \<Rightarrow> string \<Rightarrow> GatingRule list option \<Rightarrow> (error + unit) \<times> World" where
  "runUserCheck env w guildId discordUserId preloadedRules =
     (let rules = (case preloadedRules of Some rs \<Rightarrow> rs | None \<Rightarrow> activeRules w guildId)
      in if rules = [] then (Inr (), w)
         else
           (case findWalletLink w guildId discordUserId of
              None \<Rightarrow> (Inr (), w)
            | Some walletLink \<Rightarrow>
                (let (fetched, w1) = getUsdPrices 60 env w (usdRuleAssetIds rules);
                     prices = (case fetched of Inl e \<Rightarrow> Map.empty | Inr p \<Rightarrow> p)
                 in case guildsFetch env guildId of
                      None \<Rightarrow> (Inr (), w1)
                    | Some guild \<Rightarrow>
                        (if g_fetchMeFails guild then (Inl (LibraryError ''discord.js''), w1)
                         else
                           (case g_members guild discordUserId of
                              None \<Rightarrow> (Inr (), w1)
                            | Some member \<Rightarrow>
                                (case getWalletSnapshot env (l_walletPubkey walletLink)
                                        (needsTokenSnapshot rules) (needsNftSnapshot rules) of
                                   None \<Rightarrow> (Inr (), touchLastChecked env w1 (l_id walletLink))
                                 | Some snapshot \<Rightarrow>
                                     (let evaluations = evaluateRules rules snapshot prices;
                                          decisions = computeRoleDecisions evaluations;
                                          w2 = syncRoleDecisions env w1 guild member guildId
                                                 discordUserId decisions evaluations
                                      in (Inr (),
                                          touchLastChecked env w2 (l_id walletLink)))))))))"

text \<open>One turn of the loop over the managed roles in \<open>removeManagedRolesForMember\<close>.\<close>

definition removeManagedRole ::
  "Env \<Rightarrow> World \<Rightarrow> Guild \<Rightarrow> GuildMember \<Rightarrow> string \<Rightarrow> string \<Rightarrow> string \<Rightarrow> World" where
  "removeManagedRole env w guild member guildId discordUserId rid =
     (case g_roles guild rid of
        None \<Rightarrow> w
      | Some role \<Rightarrow>
          (if rid \<notin> m_rolesCache member \<or> \<not> canManageRole env guild role then w
           else
             (let call = RoleRemove guildId discordUserId rid;
                  w1 = w\<lparr>roleRequests := roleRequests w @ [call]\<rparr>
              in if roleCallFails env call then w1
                 else writeAuditLog w1
                        \<lparr>a_guildId = guildId, a_discordUserId = discordUserId, a_roleId = rid,
                         a_action = ROLE_REMOVED,
                         a_reason = ReasonText ''wallet unlinked - removed managed role'',
                         a_ruleId = None\<rparr>)))"

definition removeManagedRolesForMember ::
  "Env \<Rightarrow> World \<Rightarrow> string \<Rightarrow> string \<Rightarrow> (error + unit) \<times> World" where
  "removeManagedRolesForMember env w guildId discordUserId =
     (case guildsFetch env guildId of
        None \<Rightarrow> (Inr (), w)
      | Some guild \<Rightarrow>
          (if g_fetchMeFails guild then (Inl (LibraryError ''discord.js''), w)
           else
             (case g_members guild discordUserId of
                None \<Rightarrow> (Inr (), w)
              | Some member \<Rightarrow>
                  (let managedRoles =
                         remdups (map r_roleId
                           (filter (\<lambda>r. r_guildId r = guildId) (gatingRules w)))
                   in (Inr (),
                       foldl (\<lambda>w' rid. removeManagedRole env w' guild member guildId
                                          discordUserId rid) w managedRoles)))))"

text \<open>
  The \<open>/unlink\<close> command of src/bot/client.ts: the managed roles are removed only when
  a link was deleted and the worker is there.
\<close>

definition unlinkCommand ::
  "Env \<Rightarrow> bool \<Rightarrow> World \<Rightarrow> string \<Rightarrow> string \<Rightarrow> (error + UnlinkResult) \<times> World" where
  "unlinkCommand env workerPresent w guildId discordUserId =
     (let (result, w1) = unlinkWallet w guildId discordUserId
      in if deleted result \<and> workerPresent then
           (case removeManagedRolesForMember env w1 guildId discordUserId of
              (Inl e, w2) \<Rightarrow> (Inl e, w2)
            | (Inr u, w2) \<Rightarrow> (Inr result, w2))
         else (Inr result, w1))"

section \<open>Notions used to state the evaluator's properties\<close>

text \<open>
  The outcome of a rule in the words of the specification: the formulas
  \<open>balance \<ge> threshold_amount\<close>, \<open>balance \<times> price \<ge> threshold_usd\<close> and
  \<open>count \<ge> threshold_count\<close> on the values as they are stored, an absent balance or
  count being 0 and an absent price leaving the rule undecided. A null column, on which
  the formulas are silent, is read as 0 or as the empty string.
\<close>

definition specSatisfied ::
  "GatingRule \<Rightarrow> WalletSnapshot \<Rightarrow> (string \<rightharpoonup> real) \<Rightarrow> bool option" where
  "specSatisfied rule snapshot prices =
     (let mint = (case r_mint rule of None \<Rightarrow> '''' | Some m \<Rightarrow> m);
          balance = (case tokenBalancesByMint snapshot mint of None \<Rightarrow> 0 | Some b \<Rightarrow> b)
      in case r_type rule of
           TOKEN_AMOUNT \<Rightarrow>
             Some (balance \<ge> (case r_thresholdAmount rule of None \<Rightarrow> 0 | Some t \<Rightarrow> t))
         | TOKEN_USD \<Rightarrow>
             (case prices (case r_priceAssetId rule of None \<Rightarrow> '''' | Some a \<Rightarrow> a) of
                None \<Rightarrow> None
              | Some price \<Rightarrow>
                  Some (balance * price
                          \<ge> (case r_thresholdUsd rule of None \<Rightarrow> 0 | Some t \<Rightarrow> t)))
         | NFT_COLLECTION \<Rightarrow>
             Some ((case nftCountsByCollection snapshot
                           (case r_collection rule of None \<Rightarrow> '''' | Some c \<Rightarrow> c) of
                      None \<Rightarrow> 0 | Some n \<Rightarrow> n)
                     \<ge> (case r_thresholdCount rule of None \<Rightarrow> 0 | Some t \<Rightarrow> t)))"

section \<open>Notions used to state the worker's properties\<close>

text \<open>
  The bot can manage the role with this id: the role resolves and \<open>canManageRole\<close> holds.
\<close>

definition manageable :: "Env \<Rightarrow> Guild \<Rightarrow> string \<Rightarrow> bool" where
  "manageable env guild rid =
     (case g_roles guild rid of None \<Rightarrow> False | Some role \<Rightarrow> canManageRole env guild role)"

fun requestRole :: "RoleRequest \<Rightarrow> string" where
  "requestRole (RoleAdd g u r) = r"
| "requestRole (RoleRemove g u r) = r"

text \<open>
  From \<open>w\<close> to \<open>w'\<close> the log of role requests and the audit log have only grown, and
  every request sent and every entry written is for a role the bot can manage.
\<close>

definition gatedChanges :: "Env \<Rightarrow> Guild \<Rightarrow> World \<Rightarrow> World \<Rightarrow> bool" where
  "gatedChanges env guild w w' \<longleftrightarrow>
     (\<exists>reqs entries.
        roleRequests w' = roleRequests w @ reqs \<and>
        auditLog w' = auditLog w @ entries \<and>
        (\<forall>q \<in> set reqs. manageable env guild (requestRole q)) \<and>
        (\<forall>a \<in> set entries.
           (a_action a = ROLE_ADDED \<or> a_action a = ROLE_REMOVED) \<and>
           manageable env guild (a_roleId a)))"

section \<open>Notions used to state the price cache's properties\<close>

text \<open>A stored quote that is at most 60 seconds old exists for the id.\<close>

definition freshQuote :: "Env \<Rightarrow> World \<Rightarrow> string \<Rightarrow> bool" where
  "freshQuote env w i \<longleftrightarrow>
     (\<exists>row \<in> set (priceCache w). q_assetId row = i \<and> q_fetchedAt row \<ge> now env - 60000)"

text \<open>The requested ids without such a quote, once each, in the order of the request.\<close>

definition staleIds :: "Env \<Rightarrow> World \<Rightarrow> string list \<Rightarrow> string list" where
  "staleIds env w assetIds = filter (\<lambda>i. \<not> freshQuote env w i) (uniqueIds assetIds)"

section \<open>Notions used to state the NFT counting properties\<close>

text \<open>The test a grouping entry has to pass in \<open>extractVerifiedCollectionAddress\<close>.\<close>

definition passesGroupTest :: "DasGroup \<Rightarrow> bool" where
  "passesGroupTest g \<longleftrightarrow>
     group_key g = JStr ''collection'' \<and> (\<exists>v. group_value g = JStr v) \<and>
     (verified g = JBool True \<or> collection_verified g = JBool True)"

text \<open>A grouping entry that passes the test with a value that is not empty.\<close>

definition groupSignal :: "DasGroup \<Rightarrow> bool" where
  "groupSignal g \<longleftrightarrow>
     group_key g = JStr ''collection'' \<and> (\<exists>v. group_value g = JStr v \<and> v \<noteq> '''') \<and>
     (verified g = JBool True \<or> collection_verified g = JBool True)"

text \<open>Metadata whose \<open>verified\<close> and \<open>key\<close> are both truthy.\<close>

definition metadataSignal :: "DasAsset \<Rightarrow> bool" where
  "metadataSignal asset \<longleftrightarrow>
     (case collection asset of
        None \<Rightarrow> False
      | Some c \<Rightarrow> truthy (c_verified c) \<and> truthy (c_key c))"

text \<open>\<open>content.metadata.collection.key\<close> under that condition, else \<open>null\<close>.\<close>

definition metadataKey :: "DasAsset \<Rightarrow> jsval" where
  "metadataKey asset =
     (case collection asset of
        None \<Rightarrow> JNull
      | Some c \<Rightarrow> (if truthy (c_verified c) \<and> truthy (c_key c) then c_key c else JNull))"

text \<open>The verification signal that the code looks for.\<close>

definition verificationSignal :: "DasAsset \<Rightarrow> bool" where
  "verificationSignal asset \<longleftrightarrow>
     list_ex groupSignal (nullish (grouping asset) []) \<or> metadataSignal asset"

text \<open>
  The first grouping entry that passes the test has the empty string as its value. The
  loop returns at this entry, so that neither a later entry nor the metadata are
  looked at.
\<close>

definition emptyValueFirst :: "DasAsset \<Rightarrow> bool" where
  "emptyValueFirst asset \<longleftrightarrow>
     (case dropWhile (\<lambda>g. \<not> passesGroupTest g) (nullish (grouping asset) []) of
        [] \<Rightarrow> False
      | g # gs \<Rightarrow> group_value g = JStr '''')"

text \<open>
  The verification signal in the words of the specification: a grouping entry with
  \<open>group_key == "collection"\<close>, a string group value and a truthy \<open>verified\<close> or
  \<open>collection_verified\<close> flag, or metadata with \<open>verified == true\<close> and a non-empty
  collection key.
\<close>

definition specVerificationSignal :: "DasAsset \<Rightarrow> bool" where
  "specVerificationSignal asset \<longleftrightarrow>
     (\<exists>g \<in> set (nullish (grouping asset) []).
        group_key g = JStr ''collection'' \<and> (\<exists>v. group_value g = JStr v) \<and>
        (truthy (verified g) \<or> truthy (collection_verified g))) \<or>
     (\<exists>c. collection asset = Some c \<and> c_verified c = JBool True \<and>
          (\<exists>k. c_key c = JStr k \<and> k \<noteq> ''''))"

text \<open>
  The counts of a scan in which every item counts once: a key has as its count the
  number of items with that key, and no entry when there is none.
\<close>

definition onceEach :: "DasAsset list \<Rightarrow> (jsval \<rightharpoonup> int)" where
  "onceEach items k =
     (if truthy k \<and> list_ex (\<lambda>a. extractVerifiedCollectionAddress a = k) items
      then Some (int (length (filter (\<lambda>a. extractVerifiedCollectionAddress a = k) items)))
      else None)"

section \<open>Example inputs\<close>

text \<open>The three rules and the wallet of scenarios S1 to S3; the price map is empty.\<close>

definition example_rules :: "GatingRule list" where
  "example_rules =
     [\<lparr>r_id = ''r1'', r_guildId = ''guild-1'', r_type = TOKEN_AMOUNT, r_mint = Some ''M'',
       r_collection = None, r_thresholdAmount = Some 100, r_thresholdUsd = None,
       r_thresholdCount = None, r_roleId = ''R'', r_priceAssetId = None, r_enabled = True\<rparr>,
      \<lparr>r_id = ''r2'', r_guildId = ''guild-1'', r_type = TOKEN_USD, r_mint = Some ''M'',
       r_collection = None, r_thresholdAmount = None, r_thresholdUsd = Some 10,
       r_thresholdCount = None, r_roleId = ''R'', r_priceAssetId = Some ''sol'', r_enabled = True\<rparr>,
      \<lparr>r_id = ''r3'', r_guildId = ''guild-1'', r_type = NFT_COLLECTION, r_mint = None,
       r_collection = Some ''C'', r_thresholdAmount = None, r_thresholdUsd = None,
       r_thresholdCount = Some 2, r_roleId = ''R'', r_priceAssetId = None, r_enabled = True\<rparr>]"

definition example_snapshot :: WalletSnapshot where
  "example_snapshot =
     \<lparr>wallet = ''wallet-a'', tokenBalancesByMint = [''M'' \<mapsto> 100],
      nftCountsByCollection = [''C'' \<mapsto> 2]\<rparr>"

text \<open>
  Rules of every type against one wallet and one price map. The price of \<open>third\<close> is
  the double that \<open>0.3333333333333333\<close> denotes, \<open>6004799503160661 / 2 ^ 54\<close>; the
  threshold of \<open>big_threshold_rule\<close> is \<open>2 ^ 53 + 1\<close> and the balance of \<open>B\<close> is
  \<open>2 ^ 53\<close>; \<open>product_rule\<close> asks for 1 USD of a mint of which the wallet holds 3. The wallet
  holds nothing of mint \<open>Z\<close> and of collection \<open>D\<close>, and 7 of the mint with the empty
  name.
\<close>

definition amount_rule :: "string \<Rightarrow> string option \<Rightarrow> real option \<Rightarrow> GatingRule" where
  "amount_rule i mint threshold =
     \<lparr>r_id = i, r_guildId = ''guild-1'', r_type = TOKEN_AMOUNT, r_mint = mint,
      r_collection = None, r_thresholdAmount = threshold, r_thresholdUsd = None,
      r_thresholdCount = None, r_roleId = ''R'', r_priceAssetId = None, r_enabled = True\<rparr>"

definition usd_rule ::
  "string \<Rightarrow> string option \<Rightarrow> string option \<Rightarrow> real option \<Rightarrow> GatingRule" where
  "usd_rule i mint asset threshold =
     \<lparr>r_id = i, r_guildId = ''guild-1'', r_type = TOKEN_USD, r_mint = mint,
      r_collection = None, r_thresholdAmount = None, r_thresholdUsd = threshold,
      r_thresholdCount = None, r_roleId = ''R'', r_priceAssetId = asset, r_enabled = True\<rparr>"

definition nft_rule :: "string \<Rightarrow> string option \<Rightarrow> int option \<Rightarrow> GatingRule" where
  "nft_rule i coll threshold =
     \<lparr>r_id = i, r_guildId = ''guild-1'', r_type = NFT_COLLECTION, r_mint = None,
      r_collection = coll, r_thresholdAmount = None, r_thresholdUsd = None,
      r_thresholdCount = threshold, r_roleId = ''R'', r_priceAssetId = None, r_enabled = True\<rparr>"

definition big_threshold_rule :: GatingRule where
  "big_threshold_rule = amount_rule ''a4'' (Some ''B'') (Some 9007199254740993)"

definition product_rule :: GatingRule where
  "product_rule = usd_rule ''u6'' (Some ''T'') (Some ''third'') (Some 1)"

definition semantics_rules :: "GatingRule list" where
  "semantics_rules =
     [amount_rule ''a0'' (Some ''M'') (Some 100),
      amount_rule ''a1'' (Some ''N'') (Some 100),
      amount_rule ''a2'' (Some ''Z'') (Some 1),
      amount_rule ''a3'' None (Some 8),
      big_threshold_rule,
      usd_rule ''u5'' (Some ''M'') (Some ''nope'') (Some 10),
      product_rule,
      usd_rule ''u7'' (Some ''F'') (Some ''usd'') (Some 10),
      usd_rule ''u8'' (Some ''Z'') (Some ''usd'') None,
      nft_rule ''n9'' (Some ''C'') (Some 2),
      nft_rule ''n10'' (Some ''C'') (Some 3),
      nft_rule ''n11'' (Some ''D'') (Some 1)]"

definition semantics_snapshot :: WalletSnapshot where
  "semantics_snapshot =
     \<lparr>wallet = ''wallet-a'',
      tokenBalancesByMint =
        [''M'' \<mapsto> 100, ''N'' \<mapsto> 199 / 2, '''' \<mapsto> 7, ''B'' \<mapsto> 9007199254740992,
         ''T'' \<mapsto> 3, ''F'' \<mapsto> 5],
      nftCountsByCollection = [''C'' \<mapsto> 2]\<rparr>"

definition semantics_prices :: "string \<rightharpoonup> real" where
  "semantics_prices =
     [''third'' \<mapsto> 6004799503160661 / 18014398509481984, ''usd'' \<mapsto> 3 / 2]"

text \<open>Rules stored with every nullable column null.\<close>

definition null_amount_rule :: GatingRule where
  "null_amount_rule =
     \<lparr>r_id = ''r0'', r_guildId = ''guild-1'', r_type = TOKEN_AMOUNT, r_mint = None,
      r_collection = None, r_thresholdAmount = None, r_thresholdUsd = None,
      r_thresholdCount = None, r_roleId = ''R'', r_priceAssetId = None, r_enabled = True\<rparr>"

definition null_count_rule :: GatingRule where
  "null_count_rule =
     \<lparr>r_id = ''r9'', r_guildId = ''guild-1'', r_type = NFT_COLLECTION, r_mint = None,
      r_collection = Some ''C'', r_thresholdAmount = None, r_thresholdUsd = None,
      r_thresholdCount = None, r_roleId = ''R'', r_priceAssetId = None, r_enabled = True\<rparr>"

text \<open>The evaluations of scenario S4.\<close>

definition example_evaluations :: "EvaluationResult list" where
  "example_evaluations =
     [\<lparr>ruleId = ''r1'', roleId = ''role-1'', satisfied = Some False, reason = ReasonText ''false''\<rparr>,
      \<lparr>ruleId = ''r2'', roleId = ''role-1'', satisfied = None,
       reason = ReasonText ''indeterminate''\<rparr>,
      \<lparr>ruleId = ''r3'', roleId = ''role-2'', satisfied = Some True, reason = ReasonText ''true''\<rparr>]"

text \<open>
  One guild \<open>g1\<close> with member \<open>u1\<close>, an open verification session \<open>s1\<close> that expires at
  1000, and no wallet link yet. The token \<open>tok\<close> carries the session; \<open>sigA\<close> is the
  signature of \<open>walletA\<close> on the challenge and \<open>sigB\<close> that of \<open>walletB\<close>.
\<close>

definition example_session :: VerifySession where
  "example_session =
     \<lparr>s_id = ''s1'', s_guildId = ''g1'', s_discordUserId = ''u1'', s_nonce = ''n1'',
      s_challengeMessage = ''Verify Discord u1 in Guild g1 nonce n1 exp 1000'',
      s_expiresAt = 1000, s_usedAt = None\<rparr>"

definition example_world :: World where
  "example_world =
     \<lparr>walletLinks = [], verifySessions = [example_session], gatingRules = [],
      auditLog = [], priceCache = [], priceRequests = [], roleRequests = []\<rparr>"

definition example_env :: Env where
  "example_env =
     \<lparr>now = 500,
      jwtVerify = (\<lambda>t. if t = ''tok'' then JwtClaims (Some ''g1'') (Some ''u1'') (Some ''s1'')
                       else JwtThrows),
      verifyDetached =
        (\<lambda>m s p. Some (m = ''Verify Discord u1 in Guild g1 nonce n1 exp 1000'' \<and>
                        (s = ''sigA'' \<and> p = ''walletA'' \<or> s = ''sigB'' \<and> p = ''walletB''))),
      walletUpsertFails = False,
      freshId = ''link-1'',
      fetchSimplePrice = (\<lambda>ids. None),
      guildsFetch = Map.empty,
      getWalletSnapshot = (\<lambda>w t n. None),
      roleCallFails = (\<lambda>c. False),
      comparePositionTo = (\<lambda>a b. position a - position b)\<rparr>"

definition submitA :: SubmitInput where
  "submitA = \<lparr>token = ''tok'', walletPubkey = ''walletA'', signatureBase58 = ''sigA''\<rparr>"

definition submitB :: SubmitInput where
  "submitB = \<lparr>token = ''tok'', walletPubkey = ''walletB'', signatureBase58 = ''sigB''\<rparr>"

text \<open>The same world once \<open>u1\<close> has linked \<open>walletA\<close>.\<close>

definition linked_world :: World where
  "linked_world =
     example_world\<lparr>walletLinks :=
       [\<lparr>l_id = ''link-1'', l_guildId = ''g1'', l_discordUserId = ''u1'',
         l_walletPubkey = ''walletA'', l_verifiedAt = 500, l_lastCheckedAt = None\<rparr>]\<rparr>"

text \<open>
  The guild \<open>g1\<close> on the chat platform: the bot may manage roles and its highest role
  has position 10, so it ranks above \<open>R\<close> (position 5) and below \<open>Rhigh\<close> (position 20).
  The member \<open>u1\<close> holds \<open>Rhigh\<close> only.
\<close>

definition example_guild :: Guild where
  "example_guild =
     \<lparr>g_me = Some \<lparr>hasManageRoles = True, highest = \<lparr>role_id = ''bot'', position = 10\<rparr>\<rparr>,
      g_fetchMeFails = False,
      g_roles = [''R'' \<mapsto> \<lparr>role_id = ''R'', position = 5\<rparr>,
                 ''Rhigh'' \<mapsto> \<lparr>role_id = ''Rhigh'', position = 20\<rparr>],
      g_members = [''u1'' \<mapsto> \<lparr>m_rolesCache = {''Rhigh''}\<rparr>]\<rparr>"

text \<open>An environment in which every wallet snapshot fails, and one in which it succeeds.\<close>

definition outage_env :: Env where
  "outage_env = example_env\<lparr>guildsFetch := [''g1'' \<mapsto> example_guild]\<rparr>"

definition healthy_env :: Env where
  "healthy_env = outage_env\<lparr>getWalletSnapshot := (\<lambda>w t n. Some example_snapshot)\<rparr>"

text \<open>
  A rule for \<open>Rhigh\<close> that the example wallet does not satisfy, after the rules for \<open>R\<close>.
\<close>

definition gate_rules :: "GatingRule list" where
  "gate_rules =
     example_rules @
     [\<lparr>r_id = ''r4'', r_guildId = ''guild-1'', r_type = TOKEN_AMOUNT, r_mint = Some ''M'',
       r_collection = None, r_thresholdAmount = Some 1000, r_thresholdUsd = None,
       r_thresholdCount = None, r_roleId = ''Rhigh'', r_priceAssetId = None,
       r_enabled = True\<rparr>]"

text \<open>
  A price cache at time 100000 with a quote for \<open>sol\<close> that is 10 seconds old and one
  for \<open>old\<close> that is 99 seconds old. The provider answers with a price for \<open>btc\<close> and
  \<open>old\<close>, a number that is not finite for \<open>doge\<close> and nothing for \<open>xrp\<close>.
\<close>

definition price_world :: World where
  "price_world =
     example_world\<lparr>priceCache :=
       [\<lparr>q_assetId = ''sol'', q_priceUsd = 150, q_fetchedAt = 90000\<rparr>,
        \<lparr>q_assetId = ''old'', q_priceUsd = 1, q_fetchedAt = 1000\<rparr>]\<rparr>"

definition price_env :: Env where
  "price_env =
     example_env\<lparr>now := 100000,
       fetchSimplePrice :=
         (\<lambda>ids. Some [''btc'' \<mapsto> JNum 60000, ''doge'' \<mapsto> JNonFinite True, ''old'' \<mapsto> JNum 2])\<rparr>"

definition price_request :: "string list" where
  "price_request = [''sol'', ''btc'', ''doge'', ''btc'', ''old'', ''xrp'']"

text \<open>
  Indexer assets: one whose grouping entry is verified with the flag \<open>true\<close>, one that
  is verified by its metadata only, one whose grouping flag is the number 1, one whose
  metadata carry the string \<open>"false"\<close> as their flag, one whose only verified grouping
  entry has the empty string as its value, and one without any collection.
\<close>

definition asset_grouped :: DasAsset where
  "asset_grouped =
     \<lparr>grouping = Some [\<lparr>group_key = JStr ''collection'', group_value = JStr ''C'',
                         verified = JBool True, collection_verified = JUndefined\<rparr>],
      collection = None\<rparr>"

definition asset_metadata :: DasAsset where
  "asset_metadata =
     \<lparr>grouping = None, collection = Some \<lparr>c_key = JStr ''C'', c_verified = JBool True\<rparr>\<rparr>"

definition asset_flag_one :: DasAsset where
  "asset_flag_one =
     \<lparr>grouping = Some [\<lparr>group_key = JStr ''collection'', group_value = JStr ''C'',
                         verified = JNum 1, collection_verified = JUndefined\<rparr>],
      collection = None\<rparr>"

definition asset_flag_string :: DasAsset where
  "asset_flag_string =
     \<lparr>grouping = Some [],
      collection = Some \<lparr>c_key = JStr ''K'', c_verified = JStr ''false''\<rparr>\<rparr>"

definition asset_empty_only :: DasAsset where
  "asset_empty_only =
     \<lparr>grouping = Some [\<lparr>group_key = JStr ''collection'', group_value = JStr '''',
                         verified = JBool True, collection_verified = JUndefined\<rparr>],
      collection = None\<rparr>"

definition asset_plain :: DasAsset where
  "asset_plain = \<lparr>grouping = Some [], collection = None\<rparr>"

text \<open>An indexer with a single short page.\<close>

definition one_page :: "nat \<Rightarrow> DasAsset list option" where
  "one_page p =
     (if p = 1 then Some [asset_grouped, asset_plain, asset_metadata, asset_flag_one,
                          asset_flag_string, asset_empty_only]
      else None)"

section \<open>Properties of the rule evaluator\<close>

lemma nullish_simps [simp]: "nullish None d = d" "nullish (Some v) d = v"
  by (simp_all add: nullish_def)

subsection \<open>Rounding to a double\<close>

lemma roundToDouble_zero [simp]: "roundToDouble 0 = 0"
  by (simp add: roundToDouble_def)

lemma roundHalfEven_of_int: "roundHalfEven (of_int z) = z"
  by (simp add: roundHalfEven_def)

lemma roundHalfEven_near: "\<bar>of_int (roundHalfEven x) - x\<bar> \<le> 1 / 2"
  by (auto simp add: roundHalfEven_def Let_def)

lemma bitLength_nonneg: "0 \<le> bitLength n"
  by (induction n rule: bitLength.induct) (subst bitLength.simps, simp)

lemma bitLength_pos: "0 < n \<Longrightarrow> 1 \<le> bitLength n"
  using bitLength_nonneg [of "n div 2"] by (subst bitLength.simps) simp

lemma bitLength_bounds:
  "0 < n \<Longrightarrow> 2 ^ nat (bitLength n - 1) \<le> n \<and> n < 2 ^ nat (bitLength n)"
proof (induction n rule: bitLength.induct)
  case (1 n)
  show ?case
  proof (cases "n div 2 = 0")
    case True
    with \<open>0 < n\<close> have "n = 1" by presburger
    then show ?thesis
      by (simp add: bitLength.simps [of 1] bitLength.simps [of 0])
  next
    case False
    with \<open>0 < n\<close> have half: "0 < n div 2" by presburger
    with 1 have IH: "2 ^ nat (bitLength (n div 2) - 1) \<le> n div 2"
      "n div 2 < 2 ^ nat (bitLength (n div 2))"
      by simp_all
    from bitLength_pos [OF half] have b: "1 \<le> bitLength (n div 2)" .
    have unf: "bitLength n = 1 + bitLength (n div 2)"
      using \<open>0 < n\<close> by (subst bitLength.simps) simp
    from b have e1: "nat (bitLength n - 1) = Suc (nat (bitLength (n div 2) - 1))"
      unfolding unf by simp
    from b have e2: "nat (bitLength n) = Suc (nat (bitLength (n div 2)))"
      unfolding unf by simp
    from IH show ?thesis
      unfolding e1 e2 by simp presburger
  qed
qed

lemma pow2_powi: "pow2 e = 2 powi e"
  by (simp add: pow2_def power_int_def field_simps)

lemma pow2_pos: "0 < pow2 e"
  by (simp add: pow2_powi)

lemma pow2_add: "pow2 (i + j) = pow2 i * pow2 j"
  by (simp add: pow2_powi power_int_add)

lemma pow2_nat: "0 \<le> e \<Longrightarrow> pow2 e = 2 ^ nat e"
  by (simp add: pow2_def)

text \<open>\<open>binade\<close> finds the power of two at or below a positive real.\<close>

lemma binade_bounds:
  assumes "0 < a"
  shows "pow2 (binade a) \<le> a \<and> a < pow2 (binade a + 1)"
proof (cases "1 \<le> a")
  case True
  then have n: "0 < \<lfloor>a\<rfloor>" by simp
  let ?b = "bitLength \<lfloor>a\<rfloor>"
  from bitLength_pos [OF n] have b: "1 \<le> ?b" .
  from bitLength_bounds [OF n] have lo: "2 ^ nat (?b - 1) \<le> \<lfloor>a\<rfloor>" and hi: "\<lfloor>a\<rfloor> < 2 ^ nat ?b"
    by simp_all
  from lo have "(2::real) ^ nat (?b - 1) \<le> of_int \<lfloor>a\<rfloor>"
    by (metis of_int_le_iff of_int_numeral of_int_power)
  also have "\<dots> \<le> a" by simp
  finally have 1: "pow2 (binade a) \<le> a"
    using True b by (simp add: binade_def pow2_nat)
  from hi have "\<lfloor>a\<rfloor> + 1 \<le> 2 ^ nat ?b" by simp
  then have "of_int (\<lfloor>a\<rfloor> + 1) \<le> (2::real) ^ nat ?b"
    by (metis of_int_le_iff of_int_numeral of_int_power)
  moreover have "a < of_int (\<lfloor>a\<rfloor> + 1)" by linarith
  ultimately have "a < 2 ^ nat ?b" by linarith
  then have 2: "a < pow2 (binade a + 1)"
    using True b by (simp add: binade_def pow2_nat)
  from 1 2 show ?thesis ..
next
  case False
  with assms have inv: "1 < 1 / a" by simp
  let ?c = "\<lceil>1 / a\<rceil> - 1"
  from inv have n: "0 < ?c" by linarith
  let ?b = "bitLength ?c"
  from bitLength_pos [OF n] have b: "1 \<le> ?b" .
  from bitLength_bounds [OF n] have lo: "2 ^ nat (?b - 1) \<le> ?c" and hi: "?c < 2 ^ nat ?b"
    by simp_all
  have e: "binade a = - ?b"
    using False by (simp add: binade_def)
  from hi have "\<lceil>1 / a\<rceil> \<le> 2 ^ nat ?b" by simp
  then have "of_int \<lceil>1 / a\<rceil> \<le> (2::real) ^ nat ?b"
    by (metis of_int_le_iff of_int_numeral of_int_power)
  moreover have "1 / a \<le> of_int \<lceil>1 / a\<rceil>" by simp
  ultimately have "1 / a \<le> 2 ^ nat ?b" by linarith
  with assms have "1 / 2 ^ nat ?b \<le> a"
    by (simp add: field_simps)
  then have 1: "pow2 (binade a) \<le> a"
    unfolding e using b by (simp add: pow2_def)
  from lo have "(2::real) ^ nat (?b - 1) \<le> of_int ?c"
    by (metis of_int_le_iff of_int_numeral of_int_power)
  moreover have "of_int ?c < 1 / a" by linarith
  ultimately have "2 ^ nat (?b - 1) < 1 / a" by linarith
  with assms have lt: "a < 1 / 2 ^ nat (?b - 1)"
    by (simp add: field_simps)
  have "pow2 (binade a + 1) = 1 / 2 ^ nat (?b - 1)"
    unfolding e using b by (auto simp add: pow2_def)
  with lt have 2: "a < pow2 (binade a + 1)" by simp
  from 1 2 show ?thesis ..
qed

lemma pow2_mono: "i \<le> j \<Longrightarrow> pow2 i \<le> pow2 j"
  by (simp add: pow2_powi power_int_increasing)

lemma roundToDouble_minus: "roundToDouble (- x) = - roundToDouble x"
  by (simp add: roundToDouble_def Let_def)

text \<open>
  \<open>roundToDouble\<close> delivers a multiple of the spacing \<open>q\<close> of the doubles around its
  argument, with a factor of at most 53 bits, at a distance of at most half the spacing.
\<close>

lemma roundToDouble_nearest:
  assumes "x \<noteq> 0"
    and "e = max (binade \<bar>x\<bar>) (- 1022)"
    and "q = pow2 (e - 52)"
    and "m = roundHalfEven (\<bar>x\<bar> / q)"
  shows "0 \<le> m \<and> m \<le> 9007199254740992"
    and "\<bar>of_int m * q - \<bar>x\<bar>\<bar> \<le> q / 2"
    and "\<not> (e > 1023 \<or> (e = 1023 \<and> m \<ge> 9007199254740992)) \<Longrightarrow>
           \<bar>roundToDouble x\<bar> = of_int m * q"
proof -
  let ?a = "\<bar>x\<bar>"
  from assms(1) have a: "0 < ?a" by simp
  have q: "0 < q" unfolding assms(3) by (rule pow2_pos)
  from binade_bounds [OF a] have "?a < pow2 (binade ?a + 1)" by simp
  also have "\<dots> \<le> pow2 (e + 1)"
    unfolding assms(2) by (rule pow2_mono) simp
  also have "\<dots> = pow2 (53 + (e - 52))" by (simp add: add.commute)
  also have "\<dots> = pow2 53 * q"
    unfolding assms(3) by (rule pow2_add)
  finally have "?a / q < pow2 53"
    using q by (simp add: field_simps)
  then have up: "?a / q < 9007199254740992"
    by (simp add: pow2_def)
  from a q have low: "0 \<le> ?a / q" by simp
  have near: "\<bar>of_int m - ?a / q\<bar> \<le> 1 / 2"
    unfolding assms(4) by (rule roundHalfEven_near)
  from near up have "of_int m < (9007199254740993 :: real)" by linarith
  then have "m < 9007199254740993" by linarith
  moreover from near low have "(- 1 :: real) < of_int m" by linarith
  then have "- 1 < m" by linarith
  ultimately show "0 \<le> m \<and> m \<le> 9007199254740992" by simp
  then have m: "0 \<le> m" ..
  have "of_int m * q - ?a = (of_int m - ?a / q) * q"
    using q by (simp add: field_simps)
  then have "\<bar>of_int m * q - ?a\<bar> = \<bar>of_int m - ?a / q\<bar> * \<bar>q\<bar>"
    by (simp only: abs_mult)
  also have "\<dots> = \<bar>of_int m - ?a / q\<bar> * q"
    using q by simp
  also have "\<dots> \<le> 1 / 2 * q"
    using near q by (intro mult_right_mono) simp_all
  finally show "\<bar>of_int m * q - ?a\<bar> \<le> q / 2" by simp
  assume "\<not> (e > 1023 \<or> (e = 1023 \<and> m \<ge> 9007199254740992))"
  then have "roundToDouble x = (if x < 0 then - (of_int m * q) else of_int m * q)"
    using assms by (auto simp add: roundToDouble_def Let_def)
  moreover from m q have "0 \<le> of_int m * q" by simp
  ultimately show "\<bar>roundToDouble x\<bar> = of_int m * q"
    by (simp split: if_splits)
qed

text \<open>Integers of at most 53 bits are doubles.\<close>

lemma roundToDouble_of_int:
  assumes "\<bar>n\<bar> \<le> 9007199254740992"
  shows "roundToDouble (of_int n) = of_int n"
proof -
  have pos: "roundToDouble (of_int k) = of_int k" if k: "0 < k" "k \<le> 9007199254740992" for k
  proof -
    let ?a = "real_of_int k"
    from k have ab: "\<bar>?a\<bar> = ?a" by simp
    have fl: "\<lfloor>?a\<rfloor> = k" by simp
    from k have ge: "1 \<le> ?a" by simp
    define e where "e = bitLength k - 1"
    from ge fl have bin: "binade ?a = e" by (simp add: binade_def e_def)
    from bitLength_pos [OF k(1)] have e0: "0 \<le> e" by (simp add: e_def)
    from bitLength_bounds [OF k(1)] have lo: "2 ^ nat e \<le> k" by (simp add: e_def)
    have e53: "e \<le> 53"
    proof (rule ccontr)
      assume "\<not> e \<le> 53"
      then have "54 \<le> nat e" by simp
      then have "(2::int) ^ 54 \<le> 2 ^ nat e" by (intro power_increasing) simp_all
      with lo k(2) show False by simp
    qed
    have mx: "max e (- 1022) = e" using e0 by simp
    from k(1) have nz: "real_of_int k \<noteq> 0" "\<not> real_of_int k < 0" by simp_all
    show ?thesis
    proof (cases "e = 53")
      case True
      with lo have "(2::int) ^ 53 \<le> k" by simp
      with k(2) have keq: "k = 9007199254740992" by simp
      show ?thesis
        using bin True unfolding keq
        by (simp add: roundToDouble_def Let_def pow2_def roundHalfEven_def)
    next
      case False
      with e53 have e52: "e \<le> 52" by simp
      let ?s = "nat (52 - e)"
      have q: "pow2 (e - 52) = 1 / 2 ^ ?s"
        using e52 by (auto simp add: pow2_def)
      have "?a / pow2 (e - 52) = of_int (k * 2 ^ ?s)"
        using k(1) by (simp add: q)
      then have r: "roundHalfEven (?a / pow2 (e - 52)) = k * 2 ^ ?s"
        by (simp only: roundHalfEven_of_int)
      have "roundToDouble (of_int k) = of_int (k * 2 ^ ?s) * pow2 (e - 52)"
        using e52 nz by (simp add: roundToDouble_def Let_def ab bin mx r del: of_int_mult)
      also have "\<dots> = of_int k" by (simp add: q)
      finally show ?thesis .
    qed
  qed
  consider "n = 0" | "0 < n" | "n < 0" by linarith
  then show ?thesis
  proof cases
    case 1 then show ?thesis by (simp add: roundToDouble_def)
  next
    case 2 with assms show ?thesis by (intro pos) simp_all
  next
    case 3
    with assms have "roundToDouble (of_int (- n)) = of_int (- n)" by (intro pos) simp_all
    then show ?thesis by (simp add: roundToDouble_minus)
  qed
qed

text \<open>
  Small integers and halves are doubles. \<open>2 ^ 53 + 1\<close> lies midway between two doubles
  and goes to the even one, \<open>2 ^ 53\<close>. Three times the double of \<open>0.3333333333333333\<close>
  is \<open>1 - 2 ^ -54\<close>, midway between the doubles \<open>1 - 2 ^ -53\<close> and \<open>1\<close>, and goes
  to \<open>1\<close>. The double of \<open>0.1\<close> is \<open>3602879701896397 / 2 ^ 55\<close>.
\<close>

lemma roundToDouble_examples:
  "roundToDouble 1 = 1"
  "roundToDouble 8 = 8"
  "roundToDouble 10 = 10"
  "roundToDouble 100 = 100"
  "roundToDouble (15 / 2) = 15 / 2"
  "roundToDouble 9007199254740993 = 9007199254740992"
  "roundToDouble (18014398509481983 / 18014398509481984) = 1"
  "roundToDouble (1 / 10) = 3602879701896397 / 36028797018963968"
  "roundToDouble (- (1 / 3)) = - (6004799503160661 / 18014398509481984)"
  "roundToDouble 9007199254740995 = 9007199254740996"
  by code_simp+

subsection \<open>Grouping by role\<close>

lemma byRole_set_map_of:
  "map_of (byRole_set m k v) k' = (if k' = k then Some v else map_of m k')"
  by (induction m k v rule: byRole_set.induct) auto

lemma byRole_set_keys:
  "map fst (byRole_set m k v) = (if k \<in> fst ` set m then map fst m else map fst m @ [k])"
  by (induction m k v rule: byRole_set.induct) auto

lemma byRole_add_distinct:
  "distinct (map fst m) \<Longrightarrow> distinct (map fst (byRole_add m e))"
  by (simp add: byRole_add_def byRole_set_keys)

lemma byRole_add_map_of:
  "map_of (byRole_add m e) k =
     (if k = roleId e then Some (nullish (map_of m k) [] @ [e]) else map_of m k)"
  by (simp add: byRole_add_def byRole_set_map_of)

lemma byRole_fold_distinct:
  "distinct (map fst m) \<Longrightarrow> distinct (map fst (foldl byRole_add m evs))"
  by (induction evs arbitrary: m) (simp_all add: byRole_add_distinct)

text \<open>After the first loop, the entry of a role holds its evaluations in input order.\<close>

lemma byRole_fold_map_of:
  "map_of (foldl byRole_add m evs) k =
     (if k \<in> roleId ` set evs
      then Some (nullish (map_of m k) [] @ filter (\<lambda>e. roleId e = k) evs)
      else map_of m k)"
proof (induction evs arbitrary: m)
  case Nil
  show ?case by simp
next
  case (Cons e evs)
  have none: "filter (\<lambda>x. roleId x = k) evs = []" if "k \<notin> roleId ` set evs"
    using that by (auto simp add: filter_empty_conv)
  show ?case
    by (simp add: Cons.IH byRole_add_map_of none)
qed

lemma byRole_groups:
  assumes "(k, g) \<in> set (foldl byRole_add [] evs)"
  shows "k \<in> roleId ` set evs \<and> g = filter (\<lambda>e. roleId e = k) evs"
proof -
  have "distinct (map fst (foldl byRole_add [] evs))"
    by (rule byRole_fold_distinct) simp
  with assms have "map_of (foldl byRole_add [] evs) k = Some g"
    by simp
  then show ?thesis
    by (simp add: byRole_fold_map_of split: if_splits)
qed

lemma byRole_keys:
  "set (map fst (foldl byRole_add [] evs)) = roleId ` set evs"
proof -
  have "dom (map_of (foldl byRole_add [] evs)) = roleId ` set evs"
    by (auto simp add: byRole_fold_map_of dom_def)
  then show ?thesis by (simp add: dom_map_of_conv_image_fst)
qed

lemma decisionOf_roleId: "d_roleId (decisionOf (k, g)) = k"
  by (simp add: decisionOf_def Let_def)

lemma map_roleId_decisions:
  "map d_roleId (computeRoleDecisions evs) = map fst (foldl byRole_add [] evs)"
  by (simp add: computeRoleDecisions_def decisionOf_def Let_def split_def comp_def)

lemma decisions_distinct: "distinct (map d_roleId (computeRoleDecisions evs))"
  unfolding map_roleId_decisions by (rule byRole_fold_distinct) simp

lemma decisions_roles: "set (map d_roleId (computeRoleDecisions evs)) = roleId ` set evs"
  unfolding map_roleId_decisions by (rule byRole_keys)

lemma decision_group:
  assumes "d \<in> set (computeRoleDecisions evs)"
  shows "d = decisionOf (d_roleId d, filter (\<lambda>e. roleId e = d_roleId d) evs)"
proof -
  from assms obtain k g
    where kg: "(k, g) \<in> set (foldl byRole_add [] evs)" and d: "d = decisionOf (k, g)"
    by (auto simp add: computeRoleDecisions_def)
  from byRole_groups [OF kg] have "g = filter (\<lambda>e. roleId e = k) evs" by simp
  then show ?thesis by (simp add: d decisionOf_roleId)
qed

text \<open>
  C2. \<open>computeRoleDecisions\<close> returns exactly one decision for every role id that occurs
  in the evaluations and none for any other; the decision of a role is \<open>true\<close> iff some
  evaluation of that role is satisfied, \<open>null\<close> iff none is satisfied and some is
  \<open>null\<close>, \<open>false\<close> iff all are \<open>false\<close>; and its matched rule ids are the rule ids of
  the satisfied evaluations of that role, in input order.
\<close>

theorem decide_or_semantics:
  "distinct (map d_roleId (computeRoleDecisions evs)) \<and>
   set (map d_roleId (computeRoleDecisions evs)) = roleId ` set evs \<and>
   (\<forall>d \<in> set (computeRoleDecisions evs).
      (shouldHave d = Some True \<longleftrightarrow>
         (\<exists>e \<in> set evs. roleId e = d_roleId d \<and> satisfied e = Some True)) \<and>
      (shouldHave d = None \<longleftrightarrow>
         (\<forall>e \<in> set evs. roleId e = d_roleId d \<longrightarrow> satisfied e \<noteq> Some True) \<and>
         (\<exists>e \<in> set evs. roleId e = d_roleId d \<and> satisfied e = None)) \<and>
      (shouldHave d = Some False \<longleftrightarrow>
         (\<forall>e \<in> set evs. roleId e = d_roleId d \<longrightarrow> satisfied e = Some False)) \<and>
      matchedRuleIds d =
        map ruleId (filter (\<lambda>e. roleId e = d_roleId d \<and> satisfied e = Some True) evs))"
proof (intro conjI ballI)
  show "distinct (map d_roleId (computeRoleDecisions evs))"
    by (rule decisions_distinct)
  show "set (map d_roleId (computeRoleDecisions evs)) = roleId ` set evs"
    by (rule decisions_roles)
next
  fix d assume "d \<in> set (computeRoleDecisions evs)"
  then have d: "d = decisionOf (d_roleId d, filter (\<lambda>e. roleId e = d_roleId d) evs)"
    by (rule decision_group)
  show "shouldHave d = Some True \<longleftrightarrow>
         (\<exists>e \<in> set evs. roleId e = d_roleId d \<and> satisfied e = Some True)"
    by (subst d) (auto simp add: decisionOf_def Let_def list_ex_iff)
  show "shouldHave d = None \<longleftrightarrow>
         (\<forall>e \<in> set evs. roleId e = d_roleId d \<longrightarrow> satisfied e \<noteq> Some True) \<and>
         (\<exists>e \<in> set evs. roleId e = d_roleId d \<and> satisfied e = None)"
    by (subst d) (auto simp add: decisionOf_def Let_def list_ex_iff)
  show "shouldHave d = Some False \<longleftrightarrow>
         (\<forall>e \<in> set evs. roleId e = d_roleId d \<longrightarrow> satisfied e = Some False)"
  proof -
    have tri: "satisfied e = Some False \<longleftrightarrow> satisfied e \<noteq> Some True \<and> satisfied e \<noteq> None"
      for e :: EvaluationResult
      by (cases "satisfied e") auto
    show ?thesis
      unfolding tri by (subst d) (auto simp add: decisionOf_def Let_def list_ex_iff)
  qed
  show "matchedRuleIds d =
        map ruleId (filter (\<lambda>e. roleId e = d_roleId d \<and> satisfied e = Some True) evs)"
    by (subst d) (simp add: decisionOf_def Let_def conj_commute)
qed

text \<open>Scenario S4: \<open>role-1\<close> with \<open>false\<close> and \<open>null\<close> is undecided, \<open>role-2\<close> is due.\<close>

theorem decide_or_semantics_witness:
  "(\<exists>d \<in> set (computeRoleDecisions example_evaluations).
      d_roleId d = ''role-1'' \<and> shouldHave d = None \<and> matchedRuleIds d = []) \<and>
   (\<exists>d \<in> set (computeRoleDecisions example_evaluations).
      d_roleId d = ''role-2'' \<and> shouldHave d = Some True \<and> matchedRuleIds d = [''r3''])"
proof -
  note sem = decide_or_semantics [of example_evaluations]
  from sem have roles:
    "d_roleId ` set (computeRoleDecisions example_evaluations) = roleId ` set example_evaluations"
    by simp
  have "''role-1'' \<in> roleId ` set example_evaluations"
    by (simp add: example_evaluations_def)
  with roles have "''role-1'' \<in> d_roleId ` set (computeRoleDecisions example_evaluations)"
    by simp
  then obtain d1
    where d1: "d1 \<in> set (computeRoleDecisions example_evaluations)" "d_roleId d1 = ''role-1''"
    by (elim imageE) simp
  have "''role-2'' \<in> roleId ` set example_evaluations"
    by (simp add: example_evaluations_def)
  with roles have "''role-2'' \<in> d_roleId ` set (computeRoleDecisions example_evaluations)"
    by simp
  then obtain d2
    where d2: "d2 \<in> set (computeRoleDecisions example_evaluations)" "d_roleId d2 = ''role-2''"
    by (elim imageE) simp
  from sem d1(1) have
    "(shouldHave d1 = None \<longleftrightarrow>
        (\<forall>e \<in> set example_evaluations. roleId e = d_roleId d1 \<longrightarrow> satisfied e \<noteq> Some True) \<and>
        (\<exists>e \<in> set example_evaluations. roleId e = d_roleId d1 \<and> satisfied e = None)) \<and>
     matchedRuleIds d1 =
       map ruleId (filter (\<lambda>e. roleId e = d_roleId d1 \<and> satisfied e = Some True)
                     example_evaluations)"
    by blast
  then have r1: "shouldHave d1 = None \<and> matchedRuleIds d1 = []"
    unfolding d1(2) by (simp add: example_evaluations_def)
  from sem d2(1) have
    "(shouldHave d2 = Some True \<longleftrightarrow>
        (\<exists>e \<in> set example_evaluations. roleId e = d_roleId d2 \<and> satisfied e = Some True)) \<and>
     matchedRuleIds d2 =
       map ruleId (filter (\<lambda>e. roleId e = d_roleId d2 \<and> satisfied e = Some True)
                     example_evaluations)"
    by blast
  then have r2: "shouldHave d2 = Some True \<and> matchedRuleIds d2 = [''r3'']"
    unfolding d2(2) by (simp add: example_evaluations_def)
  from d1 r1 d2 r2 show ?thesis by blast
qed
subsection \<open>Evaluating a rule\<close>

text \<open>
  C3. \<open>evaluateRules\<close> returns one evaluation per rule, in order, carrying the rule's id
  and role. A \<open>TOKEN_AMOUNT\<close> rule is never \<open>null\<close> and is satisfied iff the balance of
  its mint (0 when the wallet has none) is at least the double nearest to the stored
  threshold, so that it is satisfied when the two are equal. A \<open>TOKEN_USD\<close> rule is
  \<open>null\<close> exactly when the price map has no entry for its asset id, and otherwise
  satisfied iff the product of balance and price, rounded to the nearest double, is at
  least the double nearest to the stored threshold. An \<open>NFT_COLLECTION\<close> rule is never
  \<open>null\<close> and is satisfied iff the count of its collection (0 when absent) is at least
  the threshold. A null threshold reads as 0, a null mint, collection or asset id as
  the empty string. An integer threshold of at most \<open>2 ^ 53\<close> in magnitude is a double,
  and a \<open>TOKEN_AMOUNT\<close> rule compares the balance with the threshold itself.
\<close>

theorem evaluate_semantics:
  "length (evaluateRules rules snapshot prices) = length rules \<and>
   (\<forall>i < length rules.
      ruleId (evaluateRules rules snapshot prices ! i) = r_id (rules ! i) \<and>
      roleId (evaluateRules rules snapshot prices ! i) = r_roleId (rules ! i) \<and>
      (r_type (rules ! i) = TOKEN_AMOUNT \<longrightarrow>
         satisfied (evaluateRules rules snapshot prices ! i) =
           Some ((case tokenBalancesByMint snapshot
                         (case r_mint (rules ! i) of None \<Rightarrow> '''' | Some m \<Rightarrow> m) of
                    None \<Rightarrow> 0 | Some b \<Rightarrow> b)
                 \<ge> roundToDouble
                      (case r_thresholdAmount (rules ! i) of None \<Rightarrow> 0 | Some t \<Rightarrow> t))) \<and>
      (r_type (rules ! i) = TOKEN_USD \<longrightarrow>
         (satisfied (evaluateRules rules snapshot prices ! i) = None \<longleftrightarrow>
            prices (case r_priceAssetId (rules ! i) of None \<Rightarrow> '''' | Some a \<Rightarrow> a) = None) \<and>
         satisfied (evaluateRules rules snapshot prices ! i) =
           (case prices (case r_priceAssetId (rules ! i) of None \<Rightarrow> '''' | Some a \<Rightarrow> a) of
              None \<Rightarrow> None
            | Some price \<Rightarrow>
                Some (roundToDouble
                        ((case tokenBalancesByMint snapshot
                                (case r_mint (rules ! i) of None \<Rightarrow> '''' | Some m \<Rightarrow> m) of
                            None \<Rightarrow> 0 | Some b \<Rightarrow> b) * price)
                      \<ge> roundToDouble
                           (case r_thresholdUsd (rules ! i) of None \<Rightarrow> 0 | Some t \<Rightarrow> t)))) \<and>
      (r_type (rules ! i) = NFT_COLLECTION \<longrightarrow>
         satisfied (evaluateRules rules snapshot prices ! i) =
           Some ((case nftCountsByCollection snapshot
                         (case r_collection (rules ! i) of None \<Rightarrow> '''' | Some c \<Rightarrow> c) of
                    None \<Rightarrow> 0 | Some n \<Rightarrow> n)
                 \<ge> (case r_thresholdCount (rules ! i) of None \<Rightarrow> 0 | Some t \<Rightarrow> t)))) \<and>
   (r_type rule = TOKEN_AMOUNT \<and> r_thresholdAmount rule = Some (of_int n) \<and>
    \<bar>n\<bar> \<le> 9007199254740992 \<longrightarrow>
      satisfied (evaluateRule rule snapshot prices) =
        Some ((case tokenBalancesByMint snapshot
                      (case r_mint rule of None \<Rightarrow> '''' | Some m \<Rightarrow> m) of
                 None \<Rightarrow> 0 | Some b \<Rightarrow> b)
              \<ge> of_int n))"
proof (intro conjI)
  show "length (evaluateRules rules snapshot prices) = length rules"
    by (simp add: evaluateRules_def)
  show "r_type rule = TOKEN_AMOUNT \<and> r_thresholdAmount rule = Some (of_int n) \<and>
    \<bar>n\<bar> \<le> 9007199254740992 \<longrightarrow>
      satisfied (evaluateRule rule snapshot prices) =
        Some ((case tokenBalancesByMint snapshot
                      (case r_mint rule of None \<Rightarrow> '''' | Some m \<Rightarrow> m) of
                 None \<Rightarrow> 0 | Some b \<Rightarrow> b)
              \<ge> of_int n)"
    by (auto simp add: evaluateRule_def Let_def nullish_def roundToDouble_of_int
        split: option.splits)
qed (auto simp add: evaluateRules_def evaluateRule_def Let_def nullish_def
      split: option.splits)

text \<open>
  Twelve rules against one wallet. Token amounts: 100 against 100 passes, 99.5 against
  100 fails, no balance against 1 fails, a null mint reads the balance 7 of the empty
  mint and fails against 8, and \<open>2 ^ 53\<close> passes against the threshold \<open>2 ^ 53 + 1\<close>.
  USD values: undecided without a price, \<open>3 \<times> 0.3333333333333333\<close> passes against 1,
  \<open>5 \<times> 1.5\<close> fails against 10, and no balance passes against a null threshold. NFT
  counts: 2 against 2 passes, 2 against 3 and none against 1 fail. The second rule
  alone, its threshold 100 being an integer, fails by the comparison with 100 itself.
\<close>

theorem evaluate_semantics_witness:
  "length (evaluateRules semantics_rules semantics_snapshot semantics_prices) = 12 \<and>
   satisfied (evaluateRules semantics_rules semantics_snapshot semantics_prices ! 0) = Some True \<and>
   satisfied (evaluateRules semantics_rules semantics_snapshot semantics_prices ! 1) = Some False \<and>
   satisfied (evaluateRules semantics_rules semantics_snapshot semantics_prices ! 2) = Some False \<and>
   satisfied (evaluateRules semantics_rules semantics_snapshot semantics_prices ! 3) = Some False \<and>
   satisfied (evaluateRules semantics_rules semantics_snapshot semantics_prices ! 4) = Some True \<and>
   satisfied (evaluateRules semantics_rules semantics_snapshot semantics_prices ! 5) = None \<and>
   satisfied (evaluateRules semantics_rules semantics_snapshot semantics_prices ! 6) = Some True \<and>
   satisfied (evaluateRules semantics_rules semantics_snapshot semantics_prices ! 7) = Some False \<and>
   satisfied (evaluateRules semantics_rules semantics_snapshot semantics_prices ! 8) = Some True \<and>
   satisfied (evaluateRules semantics_rules semantics_snapshot semantics_prices ! 9) = Some True \<and>
   satisfied (evaluateRules semantics_rules semantics_snapshot semantics_prices ! 10) = Some False \<and>
   satisfied (evaluateRules semantics_rules semantics_snapshot semantics_prices ! 11) = Some False \<and>
   satisfied (evaluateRule (amount_rule ''a1'' (Some ''N'') (Some 100)) semantics_snapshot
                semantics_prices) = Some False"
proof -
  let ?evs = "evaluateRules semantics_rules semantics_snapshot semantics_prices"
  note sem = evaluate_semantics [where rules = semantics_rules
      and snapshot = semantics_snapshot and prices = semantics_prices
      and rule = "amount_rule ''a1'' (Some ''N'') (Some 100)" and n = 100]
  note at = sem [THEN conjunct2, THEN conjunct1, rule_format]
  note exact = sem [THEN conjunct2, THEN conjunct2]
  note defs = semantics_rules_def semantics_snapshot_def semantics_prices_def
    big_threshold_rule_def product_rule_def amount_rule_def usd_rule_def nft_rule_def
    roundToDouble_examples
  from sem have len: "length ?evs = 12"
    by (simp add: semantics_rules_def)
  have r0: "satisfied (?evs ! 0) = Some True" using at [of 0] by (simp add: defs)
  have r1: "satisfied (?evs ! 1) = Some False" using at [of 1] by (simp add: defs)
  have r2: "satisfied (?evs ! 2) = Some False" using at [of 2] by (simp add: defs)
  have r3: "satisfied (?evs ! 3) = Some False" using at [of 3] by (simp add: defs)
  have r4: "satisfied (?evs ! 4) = Some True" using at [of 4] by (simp add: defs)
  have r5: "satisfied (?evs ! 5) = None" using at [of 5] by (simp add: defs)
  have r6: "satisfied (?evs ! 6) = Some True" using at [of 6] by (simp add: defs)
  have r7: "satisfied (?evs ! 7) = Some False" using at [of 7] by (simp add: defs)
  have r8: "satisfied (?evs ! 8) = Some True" using at [of 8] by (simp add: defs)
  have r9: "satisfied (?evs ! 9) = Some True" using at [of 9] by (simp add: defs)
  have r10: "satisfied (?evs ! 10) = Some False" using at [of 10] by (simp add: defs)
  have r11: "satisfied (?evs ! 11) = Some False" using at [of 11] by (simp add: defs)
  have r12: "satisfied (evaluateRule (amount_rule ''a1'' (Some ''N'') (Some 100))
                          semantics_snapshot semantics_prices) = Some False"
    using exact by (simp add: amount_rule_def semantics_snapshot_def)
  from len r0 r1 r2 r3 r4 r5 r6 r7 r8 r9 r10 r11 r12 show ?thesis by simp
qed

text \<open>
  The formulas on the stored values give another answer for two of these rules. The
  price \<open>0.3333333333333333\<close> times 3 is below 1, yet the product rounds to 1 and the
  rule for 1 USD is satisfied. The balance \<open>2 ^ 53\<close> is below the threshold
  \<open>2 ^ 53 + 1\<close>, yet \<open>Number\<close> turns the threshold into \<open>2 ^ 53\<close> and the rule is
  satisfied.
\<close>

theorem evaluate_exact_counterexample:
  "satisfied (evaluateRule product_rule semantics_snapshot semantics_prices) = Some True \<and>
   specSatisfied product_rule semantics_snapshot semantics_prices = Some False \<and>
   satisfied (evaluateRule big_threshold_rule semantics_snapshot semantics_prices) = Some True \<and>
   specSatisfied big_threshold_rule semantics_snapshot semantics_prices = Some False"
  by (simp add: evaluateRule_def specSatisfied_def Let_def product_rule_def
      big_threshold_rule_def usd_rule_def amount_rule_def semantics_snapshot_def
      semantics_prices_def roundToDouble_examples)

text \<open>
  C9. A null threshold is evaluated as the threshold 0, a null mint or collection as the
  empty string, and a rule whose type is neither \<open>TOKEN_AMOUNT\<close> nor \<open>TOKEN_USD\<close> goes
  through the \<open>NFT_COLLECTION\<close> branch. Hence a \<open>TOKEN_AMOUNT\<close> or \<open>NFT_COLLECTION\<close> rule
  with a null threshold is satisfied by every wallet whose balances and counts are at
  least 0, an absent balance or count being 0.
\<close>

theorem null_fields_default:
  "evaluateRule (rule\<lparr>r_thresholdAmount := None\<rparr>) snapshot prices =
     evaluateRule (rule\<lparr>r_thresholdAmount := Some 0\<rparr>) snapshot prices \<and>
   evaluateRule (rule\<lparr>r_thresholdUsd := None\<rparr>) snapshot prices =
     evaluateRule (rule\<lparr>r_thresholdUsd := Some 0\<rparr>) snapshot prices \<and>
   evaluateRule (rule\<lparr>r_thresholdCount := None\<rparr>) snapshot prices =
     evaluateRule (rule\<lparr>r_thresholdCount := Some 0\<rparr>) snapshot prices \<and>
   evaluateRule (rule\<lparr>r_mint := None\<rparr>) snapshot prices =
     evaluateRule (rule\<lparr>r_mint := Some ''''\<rparr>) snapshot prices \<and>
   evaluateRule (rule\<lparr>r_collection := None\<rparr>) snapshot prices =
     evaluateRule (rule\<lparr>r_collection := Some ''''\<rparr>) snapshot prices \<and>
   (r_type rule \<noteq> TOKEN_AMOUNT \<and> r_type rule \<noteq> TOKEN_USD \<longrightarrow>
      evaluateRule rule snapshot prices =
        \<lparr>ruleId = r_id rule, roleId = r_roleId rule,
         satisfied =
           Some (nullish (nftCountsByCollection snapshot (nullish (r_collection rule) '''')) 0
                   \<ge> nullish (r_thresholdCount rule) 0),
         reason =
           ReasonNftCollection
             (nullish (nftCountsByCollection snapshot (nullish (r_collection rule) '''')) 0)
             (nullish (r_thresholdCount rule) 0) (nullish (r_collection rule) '''')\<rparr>) \<and>
   (r_type rule = TOKEN_AMOUNT \<and> r_thresholdAmount rule = None \<and>
    (\<forall>m b. tokenBalancesByMint snapshot m = Some b \<longrightarrow> 0 \<le> b) \<longrightarrow>
      satisfied (evaluateRule rule snapshot prices) = Some True) \<and>
   (r_type rule \<noteq> TOKEN_AMOUNT \<and> r_type rule \<noteq> TOKEN_USD \<and> r_thresholdCount rule = None \<and>
    (\<forall>c n. nftCountsByCollection snapshot c = Some n \<longrightarrow> 0 \<le> n) \<longrightarrow>
      satisfied (evaluateRule rule snapshot prices) = Some True)"
proof (intro conjI impI)
  show "evaluateRule (rule\<lparr>r_thresholdAmount := None\<rparr>) snapshot prices =
     evaluateRule (rule\<lparr>r_thresholdAmount := Some 0\<rparr>) snapshot prices"
    by (simp add: evaluateRule_def Let_def split: option.split)
  show "evaluateRule (rule\<lparr>r_thresholdUsd := None\<rparr>) snapshot prices =
     evaluateRule (rule\<lparr>r_thresholdUsd := Some 0\<rparr>) snapshot prices"
    by (simp add: evaluateRule_def Let_def split: option.split)
  show "evaluateRule (rule\<lparr>r_thresholdCount := None\<rparr>) snapshot prices =
     evaluateRule (rule\<lparr>r_thresholdCount := Some 0\<rparr>) snapshot prices"
    by (simp add: evaluateRule_def Let_def split: option.split)
  show "evaluateRule (rule\<lparr>r_mint := None\<rparr>) snapshot prices =
     evaluateRule (rule\<lparr>r_mint := Some ''''\<rparr>) snapshot prices"
    by (simp add: evaluateRule_def Let_def split: option.split)
  show "evaluateRule (rule\<lparr>r_collection := None\<rparr>) snapshot prices =
     evaluateRule (rule\<lparr>r_collection := Some ''''\<rparr>) snapshot prices"
    by (simp add: evaluateRule_def Let_def split: option.split)
next
  assume "r_type rule \<noteq> TOKEN_AMOUNT \<and> r_type rule \<noteq> TOKEN_USD"
  then show "evaluateRule rule snapshot prices =
        \<lparr>ruleId = r_id rule, roleId = r_roleId rule,
         satisfied =
           Some (nullish (nftCountsByCollection snapshot (nullish (r_collection rule) '''')) 0
                   \<ge> nullish (r_thresholdCount rule) 0),
         reason =
           ReasonNftCollection
             (nullish (nftCountsByCollection snapshot (nullish (r_collection rule) '''')) 0)
             (nullish (r_thresholdCount rule) 0) (nullish (r_collection rule) '''')\<rparr>"
    by (simp add: evaluateRule_def Let_def)
next
  assume "r_type rule = TOKEN_AMOUNT \<and> r_thresholdAmount rule = None \<and>
    (\<forall>m b. tokenBalancesByMint snapshot m = Some b \<longrightarrow> 0 \<le> b)"
  then show "satisfied (evaluateRule rule snapshot prices) = Some True"
    by (auto simp add: evaluateRule_def Let_def nullish_def split: option.splits)
next
  assume "r_type rule \<noteq> TOKEN_AMOUNT \<and> r_type rule \<noteq> TOKEN_USD \<and>
    r_thresholdCount rule = None \<and>
    (\<forall>c n. nftCountsByCollection snapshot c = Some n \<longrightarrow> 0 \<le> n)"
  then show "satisfied (evaluateRule rule snapshot prices) = Some True"
    by (auto simp add: evaluateRule_def Let_def nullish_def split: option.splits)
qed

text \<open>
  A \<open>TOKEN_AMOUNT\<close> rule with null mint and threshold against a wallet without that
  mint, and an \<open>NFT_COLLECTION\<close> rule with a null threshold against two NFTs.
\<close>

theorem null_fields_default_witness:
  "satisfied (evaluateRule null_amount_rule example_snapshot Map.empty) = Some True \<and>
   satisfied (evaluateRule null_count_rule example_snapshot Map.empty) = Some True \<and>
   reason (evaluateRule null_count_rule example_snapshot Map.empty) =
     ReasonNftCollection 2 0 ''C''"
proof -
  note sem = null_fields_default [of _ example_snapshot Map.empty]
  have bal: "\<forall>m b. tokenBalancesByMint example_snapshot m = Some b \<longrightarrow> 0 \<le> b"
    by (simp add: example_snapshot_def)
  have cnt: "\<forall>c n. nftCountsByCollection example_snapshot c = Some n \<longrightarrow> 0 \<le> n"
    by (simp add: example_snapshot_def)
  have ta: "r_type null_amount_rule = TOKEN_AMOUNT \<and> r_thresholdAmount null_amount_rule = None"
    by (simp add: null_amount_rule_def)
  have a: "satisfied (evaluateRule null_amount_rule example_snapshot Map.empty) = Some True"
    using sem [of null_amount_rule] ta bal by blast
  have ty: "r_type null_count_rule \<noteq> TOKEN_AMOUNT \<and> r_type null_count_rule \<noteq> TOKEN_USD \<and>
            r_thresholdCount null_count_rule = None"
    by (simp add: null_count_rule_def)
  have b: "satisfied (evaluateRule null_count_rule example_snapshot Map.empty) = Some True"
    using sem [of null_count_rule] ty cnt by blast
  have "evaluateRule null_count_rule example_snapshot Map.empty =
          \<lparr>ruleId = r_id null_count_rule, roleId = r_roleId null_count_rule,
           satisfied =
             Some (nullish (nftCountsByCollection example_snapshot
                              (nullish (r_collection null_count_rule) '''')) 0
                     \<ge> nullish (r_thresholdCount null_count_rule) 0),
           reason =
             ReasonNftCollection
               (nullish (nftCountsByCollection example_snapshot
                           (nullish (r_collection null_count_rule) '''')) 0)
               (nullish (r_thresholdCount null_count_rule) 0)
               (nullish (r_collection null_count_rule) '''')\<rparr>"
    using sem [of null_count_rule] ty by blast
  then have c: "reason (evaluateRule null_count_rule example_snapshot Map.empty) =
     ReasonNftCollection 2 0 ''C''"
    by (simp add: null_count_rule_def example_snapshot_def)
  from a b c show ?thesis by simp
qed
section \<open>Properties of the verification protocol\<close>

lemma find_None_conv: "find P xs = None \<longleftrightarrow> (\<forall>x \<in> set xs. \<not> P x)"
  by (induction xs) auto

lemma find_Some_in: "find P xs = Some x \<Longrightarrow> x \<in> set xs \<and> P x"
  by (induction xs) (auto split: if_splits)

lemma find_map_key:
  assumes "\<And>x. P (f x) = P x"
  shows "find P (map f xs) = map_option f (find P xs)"
  using assms by (induction xs) auto

text \<open>
  C10. When the member has no wallet link in the guild, \<open>unlinkWallet\<close> answers
  \<open>deleted = false\<close> and changes nothing: no row is deleted and no audit entry is
  written, and the \<open>/unlink\<close> command sends no role request either. When a link exists,
  it is deleted and exactly one \<open>VERIFY_UNLINKED\<close> entry is appended.
\<close>

theorem unlink_without_link:
  "((\<forall>l \<in> set (walletLinks w). l_guildId l \<noteq> g \<or> l_discordUserId l \<noteq> u) \<longrightarrow>
      unlinkWallet w g u = (\<lparr>deleted = False, ur_wallet = None\<rparr>, w) \<and>
      unlinkCommand env present w g u = (Inr \<lparr>deleted = False, ur_wallet = None\<rparr>, w)) \<and>
   (\<forall>l. findWalletLink w g u = Some l \<longrightarrow>
      fst (unlinkWallet w g u) = \<lparr>deleted = True, ur_wallet = Some (l_walletPubkey l)\<rparr> \<and>
      walletLinks (snd (unlinkWallet w g u)) = filter (\<lambda>x. l_id x \<noteq> l_id l) (walletLinks w) \<and>
      auditLog (snd (unlinkWallet w g u)) =
        auditLog w @
          [\<lparr>a_guildId = g, a_discordUserId = u, a_roleId = ''-'', a_action = VERIFY_UNLINKED,
            a_reason = ReasonText (''wallet unlinked '' @ l_walletPubkey l),
            a_ruleId = None\<rparr>])"
proof (intro conjI impI allI)
  assume none: "\<forall>l \<in> set (walletLinks w). l_guildId l \<noteq> g \<or> l_discordUserId l \<noteq> u"
  then have f: "findWalletLink w g u = None"
    by (auto simp add: findWalletLink_def find_None_conv)
  then show a: "unlinkWallet w g u = (\<lparr>deleted = False, ur_wallet = None\<rparr>, w)"
    by (simp add: unlinkWallet_def)
  show "unlinkCommand env present w g u = (Inr \<lparr>deleted = False, ur_wallet = None\<rparr>, w)"
    by (simp add: unlinkCommand_def a)
next
  fix l assume l: "findWalletLink w g u = Some l"
  show "fst (unlinkWallet w g u) = \<lparr>deleted = True, ur_wallet = Some (l_walletPubkey l)\<rparr>"
    by (simp add: unlinkWallet_def l Let_def)
  show "walletLinks (snd (unlinkWallet w g u)) =
          filter (\<lambda>x. l_id x \<noteq> l_id l) (walletLinks w)"
    by (simp add: unlinkWallet_def l Let_def writeAuditLog_def)
  show "auditLog (snd (unlinkWallet w g u)) =
        auditLog w @
          [\<lparr>a_guildId = g, a_discordUserId = u, a_roleId = ''-'', a_action = VERIFY_UNLINKED,
            a_reason = ReasonText (''wallet unlinked '' @ l_walletPubkey l),
            a_ruleId = None\<rparr>]"
    by (simp add: unlinkWallet_def l Let_def writeAuditLog_def)
qed

text \<open>Unlinking \<open>u1\<close> before and after \<open>walletA\<close> is linked.\<close>

theorem unlink_without_link_witness:
  "unlinkWallet example_world ''g1'' ''u1'' =
     (\<lparr>deleted = False, ur_wallet = None\<rparr>, example_world) \<and>
   map a_action (auditLog (snd (unlinkWallet linked_world ''g1'' ''u1''))) = [VERIFY_UNLINKED] \<and>
   walletLinks (snd (unlinkWallet linked_world ''g1'' ''u1'')) = []"
proof -
  have none: "\<forall>l \<in> set (walletLinks example_world).
                 l_guildId l \<noteq> ''g1'' \<or> l_discordUserId l \<noteq> ''u1''"
    by (simp add: example_world_def)
  have a: "unlinkWallet example_world ''g1'' ''u1'' =
             (\<lparr>deleted = False, ur_wallet = None\<rparr>, example_world)"
    using unlink_without_link [of example_world "''g1''" "''u1''" example_env True] none
    by blast
  have l: "findWalletLink linked_world ''g1'' ''u1'' =
             Some \<lparr>l_id = ''link-1'', l_guildId = ''g1'', l_discordUserId = ''u1'',
                   l_walletPubkey = ''walletA'', l_verifiedAt = 500, l_lastCheckedAt = None\<rparr>"
    by (simp add: findWalletLink_def linked_world_def)
  have b: "walletLinks (snd (unlinkWallet linked_world ''g1'' ''u1'')) =
             filter (\<lambda>x. l_id x \<noteq> ''link-1'') (walletLinks linked_world) \<and>
           auditLog (snd (unlinkWallet linked_world ''g1'' ''u1'')) =
             auditLog linked_world @
               [\<lparr>a_guildId = ''g1'', a_discordUserId = ''u1'', a_roleId = ''-'',
                 a_action = VERIFY_UNLINKED,
                 a_reason = ReasonText (''wallet unlinked '' @ ''walletA''),
                 a_ruleId = None\<rparr>]"
    using unlink_without_link [of linked_world "''g1''" "''u1''" example_env True] l
    by simp
  from a b show ?thesis
    by (simp add: linked_world_def example_world_def)
qed
subsection \<open>A session is accepted once\<close>

lemma submit_load_Inr:
  assumes "submit_load env w input = Inr s"
  shows "\<exists>payload. decodeVerifyToken env (token input) = Inr payload \<and>
           findSession w (p_sessionId payload) = Some s \<and>
           s_usedAt s = None \<and> \<not> s_expiresAt s < now env"
  using assms
  by (auto simp add: submit_load_def split: sum.splits option.splits if_splits)

lemma findSession_Some:
  "findSession w sid = Some s \<Longrightarrow> s_id s = sid \<and> s \<in> set (verifySessions w)"
  by (auto simp add: findSession_def dest: find_Some_in)

lemma markSessionUsed_found:
  assumes "findSession w (s_id s) = Some s"
  shows "markSessionUsed env w s =
           Inr (w\<lparr>verifySessions :=
                  map (\<lambda>x. if s_id x = s_id s then x\<lparr>s_usedAt := Some (now env)\<rparr> else x)
                    (verifySessions w)\<rparr>)"
proof -
  from assms have "s \<in> set (verifySessions w)" by (simp add: findSession_Some)
  then have "list_ex (\<lambda>x. s_id x = s_id s) (verifySessions w)"
    by (auto simp add: list_ex_iff)
  then show ?thesis by (simp add: markSessionUsed_def)
qed

lemma findSession_marked:
  assumes "findSession w sid = Some s"
  shows "findSession
           (w\<lparr>verifySessions :=
                map (\<lambda>x. if s_id x = sid then x\<lparr>s_usedAt := Some t\<rparr> else x) (verifySessions w)\<rparr>)
           sid = Some (s\<lparr>s_usedAt := Some t\<rparr>)"
proof -
  have "find (\<lambda>x. s_id x = sid)
          (map (\<lambda>x. if s_id x = sid then x\<lparr>s_usedAt := Some t\<rparr> else x) (verifySessions w)) =
        map_option (\<lambda>x. if s_id x = sid then x\<lparr>s_usedAt := Some t\<rparr> else x)
          (find (\<lambda>x. s_id x = sid) (verifySessions w))"
    by (rule find_map_key) simp
  with assms show ?thesis
    by (auto simp add: findSession_def dest: find_Some_in)
qed

lemma upsertWalletLink_sessions:
  "upsertWalletLink env w s input = Inr w' \<Longrightarrow> verifySessions w' = verifySessions w"
  by (auto simp add: upsertWalletLink_def split: if_splits)

text \<open>Whatever \<open>submit_finish\<close> answers, it leaves the session marked used.\<close>

lemma submit_finish_marks:
  assumes "findSession w (s_id s) = Some s"
  shows "findSession (snd (submit_finish env w s input)) (s_id s) =
           Some (s\<lparr>s_usedAt := Some (now env)\<rparr>)"
proof -
  let ?w1 = "w\<lparr>verifySessions :=
                map (\<lambda>x. if s_id x = s_id s then x\<lparr>s_usedAt := Some (now env)\<rparr> else x)
                  (verifySessions w)\<rparr>"
  have m: "markSessionUsed env w s = Inr ?w1"
    by (rule markSessionUsed_found [OF assms])
  have f: "findSession ?w1 (s_id s) = Some (s\<lparr>s_usedAt := Some (now env)\<rparr>)"
    by (rule findSession_marked [OF assms])
  show ?thesis
  proof (cases "upsertWalletLink env ?w1 s input")
    case (Inl e)
    then show ?thesis by (simp add: submit_finish_def m f)
  next
    case (Inr w2)
    then have "verifySessions w2 = verifySessions ?w1"
      by (rule upsertWalletLink_sessions)
    then have "findSession w2 (s_id s) = findSession ?w1 (s_id s)"
      by (simp add: findSession_def)
    with Inr f show ?thesis
      by (simp add: submit_finish_def m Let_def writeAuditLog_def findSession_def)
  qed
qed

lemma submit_used:
  assumes "decodeVerifyToken env (token input) = Inr payload"
    and "findSession w (p_sessionId payload) = Some s"
    and "s_usedAt s \<noteq> None"
  shows "submitVerifySignature env w input = (Inl (Error ''Verify session already used''), w)"
  using assms by (simp add: submitVerifySignature_def submit_load_def)

lemma submit_expired:
  assumes "decodeVerifyToken env (token input) = Inr payload"
    and "findSession w (p_sessionId payload) = Some s"
    and "s_usedAt s = None" and "s_expiresAt s < now env"
  shows "submitVerifySignature env w input = (Inl (Error ''Verify session expired''), w)"
  using assms by (simp add: submitVerifySignature_def submit_load_def)

lemma submit_success_load:
  assumes "submitVerifySignature env w input = (Inr res, w')"
  shows "\<exists>s. submit_load env w input = Inr s \<and> submit_finish env w s input = (Inr res, w')"
  using assms by (auto simp add: submitVerifySignature_def split: sum.splits)

lemma submit_upsert_fails:
  assumes "submit_load env w input = Inr s" and "walletUpsertFails env"
  shows "submitVerifySignature env w input =
           (Inl (LibraryError ''prisma''),
            w\<lparr>verifySessions :=
                map (\<lambda>x. if s_id x = s_id s then x\<lparr>s_usedAt := Some (now env)\<rparr> else x)
                  (verifySessions w)\<rparr>)"
proof -
  from submit_load_Inr [OF assms(1)] obtain payload :: VerifyTokenPayload
    where "findSession w (p_sessionId payload) = Some s" by auto
  then have "findSession w (s_id s) = Some s" by (simp add: findSession_Some)
  then show ?thesis
    using assms
    by (simp add: submitVerifySignature_def submit_finish_def markSessionUsed_found
        upsertWalletLink_def)
qed

text \<open>
  C5. After a successful submit the session is marked used, and every later submit
  with the same token fails and leaves the whole state, the wallet links included,
  unchanged: with the \<open>already used\<close> error while the token still verifies, with the
  token error once it does not. A submit on a session that is already used or whose
  \<open>expires_at\<close> lies before the clock, or on a session that is gone, fails in the same
  way, with a session error. The session is marked before the link is written: when the upsert throws, the session is
  used already and no link has changed.
\<close>

theorem session_single_use:
  "(submitVerifySignature env w input = (Inr res, w') \<longrightarrow>
      (\<forall>(env' :: Env) (input' :: SubmitInput).
         token input' = token input \<longrightarrow>
           (jwtVerify env' (token input) = jwtVerify env (token input) \<longrightarrow>
              submitVerifySignature env' w' input' =
                (Inl (Error ''Verify session already used''), w')) \<and>
           (jwtVerify env' (token input) = JwtThrows \<longrightarrow>
              submitVerifySignature env' w' input' = (Inl (LibraryError ''jsonwebtoken''), w')))) \<and>
   (\<forall>payload s.
      decodeVerifyToken env (token input) = Inr payload \<and>
      findSession w (p_sessionId payload) = Some s \<and>
      (s_usedAt s \<noteq> None \<or> s_expiresAt s < now env) \<longrightarrow>
        (\<exists>e. submitVerifySignature env w input = (Inl e, w) \<and> sessionInvalid e)) \<and>
   (\<forall>payload.
      decodeVerifyToken env (token input) = Inr payload \<and>
      findSession w (p_sessionId payload) = None \<longrightarrow>
        (\<exists>e. submitVerifySignature env w input = (Inl e, w) \<and> sessionInvalid e)) \<and>
   (\<forall>s. submit_load env w input = Inr s \<and> walletUpsertFails env \<longrightarrow>
      (\<exists>e w1. submitVerifySignature env w input = (Inl e, w1) \<and>
         walletLinks w1 = walletLinks w \<and> auditLog w1 = auditLog w \<and>
         findSession w1 (s_id s) = Some (s\<lparr>s_usedAt := Some (now env)\<rparr>)))"
proof (intro conjI impI allI)
  fix env' :: Env and input' :: SubmitInput
  assume ok: "submitVerifySignature env w input = (Inr res, w')"
    and tok: "token input' = token input"
  from submit_success_load [OF ok] obtain s
    where load: "submit_load env w input = Inr s"
      and fin: "submit_finish env w s input = (Inr res, w')" by blast
  from submit_load_Inr [OF load] obtain payload
    where dec: "decodeVerifyToken env (token input) = Inr payload"
      and found: "findSession w (p_sessionId payload) = Some s" by blast
  from found have sid: "s_id s = p_sessionId payload" by (simp add: findSession_Some)
  with found have "findSession w (s_id s) = Some s" by simp
  from submit_finish_marks [OF this, of env input] fin
  have marked: "findSession w' (p_sessionId payload) = Some (s\<lparr>s_usedAt := Some (now env)\<rparr>)"
    by (simp add: sid)
  {
    assume "jwtVerify env' (token input) = jwtVerify env (token input)"
    then have "decodeVerifyToken env' (token input') = Inr payload"
      using dec tok by (simp add: decodeVerifyToken_def)
    from submit_used [OF this marked]
    show "submitVerifySignature env' w' input' =
            (Inl (Error ''Verify session already used''), w')" by simp
  }
  {
    assume "jwtVerify env' (token input) = JwtThrows"
    then show "submitVerifySignature env' w' input' = (Inl (LibraryError ''jsonwebtoken''), w')"
      using tok by (simp add: submitVerifySignature_def submit_load_def decodeVerifyToken_def)
  }
next
  fix payload s
  assume a: "decodeVerifyToken env (token input) = Inr payload \<and>
      findSession w (p_sessionId payload) = Some s \<and>
      (s_usedAt s \<noteq> None \<or> s_expiresAt s < now env)"
  show "\<exists>e. submitVerifySignature env w input = (Inl e, w) \<and> sessionInvalid e"
  proof (cases "s_usedAt s = None")
    case True
    with a submit_expired [of env input payload w s] show ?thesis
      by (auto simp add: sessionInvalid_def)
  next
    case False
    with a submit_used [of env input payload w s] show ?thesis
      by (auto simp add: sessionInvalid_def)
  qed
next
  fix payload
  assume "decodeVerifyToken env (token input) = Inr payload \<and>
      findSession w (p_sessionId payload) = None"
  then have "submitVerifySignature env w input = (Inl (Error ''Verify session not found''), w)"
    by (simp add: submitVerifySignature_def submit_load_def)
  then show "\<exists>e. submitVerifySignature env w input = (Inl e, w) \<and> sessionInvalid e"
    by (simp add: sessionInvalid_def)
next
  fix s
  assume a: "submit_load env w input = Inr s \<and> walletUpsertFails env"
  from submit_load_Inr [of env w input s] a obtain payload :: VerifyTokenPayload
    where "findSession w (p_sessionId payload) = Some s" by auto
  then have f: "findSession w (s_id s) = Some s" by (simp add: findSession_Some)
  from a have "submitVerifySignature env w input =
           (Inl (LibraryError ''prisma''),
            w\<lparr>verifySessions :=
                map (\<lambda>x. if s_id x = s_id s then x\<lparr>s_usedAt := Some (now env)\<rparr> else x)
                  (verifySessions w)\<rparr>)"
    by (simp add: submit_upsert_fails)
  moreover note findSession_marked [OF f, of "now env"]
  ultimately show "\<exists>e w1. submitVerifySignature env w input = (Inl e, w1) \<and>
         walletLinks w1 = walletLinks w \<and> auditLog w1 = auditLog w \<and>
         findSession w1 (s_id s) = Some (s\<lparr>s_usedAt := Some (now env)\<rparr>)"
    by simp
qed
text \<open>
  \<open>walletA\<close> submits and succeeds; the replay with the same token is refused. At time
  2000 the session has expired. When the upsert throws, the session is used and there
  is still no link.
\<close>

theorem session_single_use_witness:
  "fst (submitVerifySignature example_env example_world submitA) =
     Inr \<lparr>sr_guildId = ''g1'', sr_discordUserId = ''u1'', replaced = False\<rparr> \<and>
   submitVerifySignature example_env
       (snd (submitVerifySignature example_env example_world submitA)) submitB =
     (Inl (Error ''Verify session already used''),
      snd (submitVerifySignature example_env example_world submitA)) \<and>
   (\<exists>e. submitVerifySignature (example_env\<lparr>now := 2000\<rparr>) example_world submitA =
          (Inl e, example_world) \<and> sessionInvalid e) \<and>
   (\<exists>e w1. submitVerifySignature (example_env\<lparr>walletUpsertFails := True\<rparr>) example_world
              submitA = (Inl e, w1) \<and>
            walletLinks w1 = walletLinks example_world \<and>
            findSession w1 ''s1'' = Some (example_session\<lparr>s_usedAt := Some 500\<rparr>))"
proof -
  have dec: "decodeVerifyToken env' ''tok'' =
               Inr \<lparr>p_guildId = ''g1'', p_discordUserId = ''u1'', p_sessionId = ''s1''\<rparr>"
    if "jwtVerify env' = jwtVerify example_env" for env' :: Env
    using that by (simp add: decodeVerifyToken_def example_env_def)
  have found: "findSession example_world ''s1'' = Some example_session"
    by (simp add: findSession_def example_world_def example_session_def)
  have load: "submit_load example_env example_world submitA = Inr example_session"
    by (simp add: submit_load_def dec found submitA_def)
      (simp add: example_env_def example_session_def)
  have "\<exists>w'. submitVerifySignature example_env example_world submitA =
               (Inr \<lparr>sr_guildId = ''g1'', sr_discordUserId = ''u1'', replaced = False\<rparr>, w')"
    by (simp add: submitVerifySignature_def load submit_finish_def markSessionUsed_def
        upsertWalletLink_def findWalletLink_def Let_def)
      (simp add: example_env_def example_world_def example_session_def)
  then obtain w' where ok:
    "submitVerifySignature example_env example_world submitA =
       (Inr \<lparr>sr_guildId = ''g1'', sr_discordUserId = ''u1'', replaced = False\<rparr>, w')"
    by blast
  have tok: "token submitB = token submitA"
    by (simp add: submitA_def submitB_def)
  from session_single_use
         [of example_env example_world submitA
             "\<lparr>sr_guildId = ''g1'', sr_discordUserId = ''u1'', replaced = False\<rparr>" w']
       ok tok
  have replay: "submitVerifySignature example_env w' submitB =
                  (Inl (Error ''Verify session already used''), w')"
    by blast
  have late: "decodeVerifyToken (example_env\<lparr>now := 2000\<rparr>) (token submitA) =
                Inr \<lparr>p_guildId = ''g1'', p_discordUserId = ''u1'', p_sessionId = ''s1''\<rparr> \<and>
              findSession example_world
                (p_sessionId \<lparr>p_guildId = ''g1'', p_discordUserId = ''u1'', p_sessionId = ''s1''\<rparr>) =
                Some example_session \<and>
              (s_usedAt example_session \<noteq> None \<or>
               s_expiresAt example_session < now (example_env\<lparr>now := 2000\<rparr>))"
    by (simp add: dec found submitA_def) (simp add: example_session_def)
  from session_single_use [of "example_env\<lparr>now := 2000\<rparr>" example_world submitA] late
  have expired: "\<exists>e. submitVerifySignature (example_env\<lparr>now := 2000\<rparr>) example_world submitA =
          (Inl e, example_world) \<and> sessionInvalid e"
    by blast
  have load': "submit_load (example_env\<lparr>walletUpsertFails := True\<rparr>) example_world submitA =
                 Inr example_session \<and>
               walletUpsertFails (example_env\<lparr>walletUpsertFails := True\<rparr>)"
    by (simp add: submit_load_def dec found submitA_def)
      (simp add: example_env_def example_session_def)
  from session_single_use
         [of "example_env\<lparr>walletUpsertFails := True\<rparr>" example_world submitA] load'
  have "\<exists>e w1. submitVerifySignature (example_env\<lparr>walletUpsertFails := True\<rparr>) example_world
              submitA = (Inl e, w1) \<and>
            walletLinks w1 = walletLinks example_world \<and>
            auditLog w1 = auditLog example_world \<and>
            findSession w1 (s_id example_session) =
              Some (example_session
                      \<lparr>s_usedAt := Some (now (example_env\<lparr>walletUpsertFails := True\<rparr>))\<rparr>)"
    by blast
  moreover have "s_id example_session = ''s1''"
    by (simp add: example_session_def)
  moreover have "now (example_env\<lparr>walletUpsertFails := True\<rparr>) = 500"
    by (simp add: example_env_def)
  ultimately have failed: "\<exists>e w1. submitVerifySignature (example_env\<lparr>walletUpsertFails := True\<rparr>)
              example_world submitA = (Inl e, w1) \<and>
            walletLinks w1 = walletLinks example_world \<and>
            findSession w1 ''s1'' = Some (example_session\<lparr>s_usedAt := Some 500\<rparr>)"
    by auto
  from ok replay expired failed show ?thesis by simp
qed

text \<open>
  C4, on the code: two submits for the session \<open>s1\<close>, by \<open>walletA\<close> and by \<open>walletB\<close>,
  that both read the session before either has marked it used. Both succeed: the test
  of \<open>usedAt\<close> is made on the copy read earlier and the update that marks the session is
  unconditional. The link ends with \<open>walletB\<close>, and the audit log records a success and
  a replacement.
\<close>

theorem concurrent_submits_both_succeed:
  "(case submit_interleaved example_env example_world submitA submitB of
      (res1, res2, w') \<Rightarrow>
        res1 = Inr \<lparr>sr_guildId = ''g1'', sr_discordUserId = ''u1'', replaced = False\<rparr> \<and>
        res2 = Inr \<lparr>sr_guildId = ''g1'', sr_discordUserId = ''u1'', replaced = True\<rparr> \<and>
        map l_walletPubkey (walletLinks w') = [''walletB''] \<and>
        map a_action (auditLog w') = [VERIFY_SUCCESS, VERIFY_REPLACED] \<and>
        map s_usedAt (verifySessions w') = [Some 500])"
proof -
  have dec: "decodeVerifyToken example_env ''tok'' =
               Inr \<lparr>p_guildId = ''g1'', p_discordUserId = ''u1'', p_sessionId = ''s1''\<rparr>"
    by (simp add: decodeVerifyToken_def example_env_def)
  have found: "findSession example_world ''s1'' = Some example_session"
    by (simp add: findSession_def example_world_def example_session_def)
  have loadA: "submit_load example_env example_world submitA = Inr example_session"
    by (simp add: submit_load_def dec found submitA_def)
      (simp add: example_env_def example_session_def)
  have loadB: "submit_load example_env example_world submitB = Inr example_session"
    by (simp add: submit_load_def dec found submitB_def)
      (simp add: example_env_def example_session_def)
  show ?thesis
    by (simp add: submit_interleaved_def loadA loadB submit_finish_def markSessionUsed_def
        upsertWalletLink_def findWalletLink_def writeAuditLog_def Let_def)
      (simp add: example_env_def example_world_def example_session_def submitA_def
        submitB_def)
qed
section \<open>Properties of the reconciliation worker\<close>

lemma getUsdPrices_frame:
  "walletLinks (snd (getUsdPrices ttl env w ids)) = walletLinks w \<and>
   auditLog (snd (getUsdPrices ttl env w ids)) = auditLog w \<and>
   roleRequests (snd (getUsdPrices ttl env w ids)) = roleRequests w"
  by (simp add: getUsdPrices_def Let_def split: option.split)

lemma touchLastChecked_frame:
  "auditLog (touchLastChecked env w i) = auditLog w \<and>
   roleRequests (touchLastChecked env w i) = roleRequests w"
  by (simp add: touchLastChecked_def)

lemma findWalletLink_touched:
  assumes "findWalletLink w g u = Some link"
    and "walletLinks w' =
           map (\<lambda>l. if l_id l = l_id link then l\<lparr>l_lastCheckedAt := Some t\<rparr> else l)
             (walletLinks w)"
  shows "findWalletLink w' g u = Some (link\<lparr>l_lastCheckedAt := Some t\<rparr>)"
proof -
  have "find (\<lambda>l. l_guildId l = g \<and> l_discordUserId l = u)
          (map (\<lambda>l. if l_id l = l_id link then l\<lparr>l_lastCheckedAt := Some t\<rparr> else l)
             (walletLinks w)) =
        map_option (\<lambda>l. if l_id l = l_id link then l\<lparr>l_lastCheckedAt := Some t\<rparr> else l)
          (find (\<lambda>l. l_guildId l = g \<and> l_discordUserId l = u) (walletLinks w))"
    by (rule find_map_key) simp
  with assms show ?thesis by (simp add: findWalletLink_def)
qed

text \<open>
  C1. In a check that reaches the wallet snapshot (there are rules, the member has a
  link, the guild and the member resolve) and whose snapshot fetch throws, the worker
  returns normally, sends no role request and writes no audit entry, and sets
  \<open>last_checked_at\<close> of the member's link to the current time.
\<close>

theorem snapshot_failure_is_fail_open:
  assumes "rules = (case preloaded of Some rs \<Rightarrow> rs | None \<Rightarrow> activeRules w g)"
    and "rules \<noteq> []"
    and "findWalletLink w g u = Some link"
    and "guildsFetch env g = Some guild"
    and "\<not> g_fetchMeFails guild"
    and "g_members guild u = Some member"
    and "getWalletSnapshot env (l_walletPubkey link)
           (needsTokenSnapshot rules) (needsNftSnapshot rules) = None"
  shows "fst (runUserCheck env w g u preloaded) = Inr () \<and>
         roleRequests (snd (runUserCheck env w g u preloaded)) = roleRequests w \<and>
         auditLog (snd (runUserCheck env w g u preloaded)) = auditLog w \<and>
         walletLinks (snd (runUserCheck env w g u preloaded)) =
           map (\<lambda>l. if l_id l = l_id link then l\<lparr>l_lastCheckedAt := Some (now env)\<rparr> else l)
             (walletLinks w) \<and>
         findWalletLink (snd (runUserCheck env w g u preloaded)) g u =
           Some (link\<lparr>l_lastCheckedAt := Some (now env)\<rparr>)"
proof -
  obtain fetched w1 where p: "getUsdPrices 60 env w (usdRuleAssetIds rules) = (fetched, w1)"
    by (cases "getUsdPrices 60 env w (usdRuleAssetIds rules)")
  from getUsdPrices_frame [of 60 env w "usdRuleAssetIds rules"] p
  have frame: "walletLinks w1 = walletLinks w" "auditLog w1 = auditLog w"
    "roleRequests w1 = roleRequests w"
    by simp_all
  have run: "runUserCheck env w g u preloaded =
               (Inr (), touchLastChecked env w1 (l_id link))"
    using assms p by (simp add: runUserCheck_def Let_def)
  have links: "walletLinks (touchLastChecked env w1 (l_id link)) =
           map (\<lambda>l. if l_id l = l_id link then l\<lparr>l_lastCheckedAt := Some (now env)\<rparr> else l)
             (walletLinks w)"
    by (simp add: touchLastChecked_def frame)
  from findWalletLink_touched [OF assms(3) links]
  have "findWalletLink (touchLastChecked env w1 (l_id link)) g u =
          Some (link\<lparr>l_lastCheckedAt := Some (now env)\<rparr>)" .
  with links show ?thesis
    by (simp add: run touchLastChecked_frame frame)
qed
text \<open>
  The wallet of \<open>u1\<close> cannot be read: the check ends without a role request or an audit
  entry, and the link is stamped with the time 500.
\<close>

theorem snapshot_failure_is_fail_open_witness:
  "fst (runUserCheck outage_env linked_world ''g1'' ''u1'' (Some example_rules)) = Inr () \<and>
   roleRequests (snd (runUserCheck outage_env linked_world ''g1'' ''u1'' (Some example_rules)))
     = [] \<and>
   auditLog (snd (runUserCheck outage_env linked_world ''g1'' ''u1'' (Some example_rules)))
     = [] \<and>
   map l_lastCheckedAt
     (walletLinks (snd (runUserCheck outage_env linked_world ''g1'' ''u1'' (Some example_rules))))
     = [Some 500]"
proof -
  let ?link = "\<lparr>l_id = ''link-1'', l_guildId = ''g1'', l_discordUserId = ''u1'',
                l_walletPubkey = ''walletA'', l_verifiedAt = 500, l_lastCheckedAt = None\<rparr>"
  have a1: "example_rules =
              (case Some example_rules of Some rs \<Rightarrow> rs | None \<Rightarrow> activeRules linked_world ''g1'')"
    by simp
  have a2: "example_rules \<noteq> []" by (simp add: example_rules_def)
  have a3: "findWalletLink linked_world ''g1'' ''u1'' = Some ?link"
    by (simp add: findWalletLink_def linked_world_def)
  have a4: "guildsFetch outage_env ''g1'' = Some example_guild"
    by (simp add: outage_env_def)
  have a5: "\<not> g_fetchMeFails example_guild" by (simp add: example_guild_def)
  have a6: "g_members example_guild ''u1'' = Some \<lparr>m_rolesCache = {''Rhigh''}\<rparr>"
    by (simp add: example_guild_def)
  have a7: "getWalletSnapshot outage_env (l_walletPubkey ?link)
              (needsTokenSnapshot example_rules) (needsNftSnapshot example_rules) = None"
    by (simp add: outage_env_def example_env_def)
  have w: "roleRequests linked_world = [] \<and> auditLog linked_world = [] \<and>
           walletLinks linked_world = [?link] \<and> now outage_env = 500"
    by (simp add: linked_world_def example_world_def outage_env_def example_env_def)
  from snapshot_failure_is_fail_open [OF a1 a2 a3 a4 a5 a6 a7] w
  show ?thesis by simp
qed

subsection \<open>The manageability gate\<close>

lemma gatedChanges_refl: "gatedChanges env guild w w"
  by (simp add: gatedChanges_def)

lemma gatedChanges_trans:
  assumes "gatedChanges env guild w w1" and "gatedChanges env guild w1 w2"
  shows "gatedChanges env guild w w2"
proof -
  from assms(1) obtain reqs entries where 1:
    "roleRequests w1 = roleRequests w @ reqs" "auditLog w1 = auditLog w @ entries"
    "\<forall>q \<in> set reqs. manageable env guild (requestRole q)"
    "\<forall>a \<in> set entries. (a_action a = ROLE_ADDED \<or> a_action a = ROLE_REMOVED) \<and>
        manageable env guild (a_roleId a)"
    unfolding gatedChanges_def by blast
  from assms(2) obtain reqs' entries' where 2:
    "roleRequests w2 = roleRequests w1 @ reqs'" "auditLog w2 = auditLog w1 @ entries'"
    "\<forall>q \<in> set reqs'. manageable env guild (requestRole q)"
    "\<forall>a \<in> set entries'. (a_action a = ROLE_ADDED \<or> a_action a = ROLE_REMOVED) \<and>
        manageable env guild (a_roleId a)"
    unfolding gatedChanges_def by blast
  have "roleRequests w2 = roleRequests w @ (reqs @ reqs')"
    and "auditLog w2 = auditLog w @ (entries @ entries')"
    by (simp_all add: 1 2)
  moreover have "\<forall>q \<in> set (reqs @ reqs'). manageable env guild (requestRole q)"
    using 1(3) 2(3) by auto
  moreover have "\<forall>a \<in> set (entries @ entries').
      (a_action a = ROLE_ADDED \<or> a_action a = ROLE_REMOVED) \<and> manageable env guild (a_roleId a)"
    using 1(4) 2(4) by auto
  ultimately show ?thesis unfolding gatedChanges_def by blast
qed

lemma syncRoleDecision_unmanageable:
  assumes "\<not> manageable env guild (d_roleId d)"
  shows "syncRoleDecision env w guild member g u d evs = w"
  using assms
  by (simp add: syncRoleDecision_def manageable_def split: option.splits)

lemma syncRoleDecision_gated:
  "gatedChanges env guild w (syncRoleDecision env w guild member g u d evs)"
proof (cases "manageable env guild (d_roleId d)")
  case False
  then show ?thesis by (simp add: syncRoleDecision_unmanageable gatedChanges_refl)
next
  case True
  then show ?thesis
    by (simp add: syncRoleDecision_def gatedChanges_def writeAuditLog_def Let_def
        split: option.splits)
qed

lemma syncRoleDecisions_gated:
  "gatedChanges env guild w (syncRoleDecisions env w guild member g u ds evs)"
proof (induction ds arbitrary: w)
  case Nil
  show ?case by (simp add: syncRoleDecisions_def gatedChanges_refl)
next
  case (Cons d ds)
  have "gatedChanges env guild (syncRoleDecision env w guild member g u d evs)
          (syncRoleDecisions env (syncRoleDecision env w guild member g u d evs)
             guild member g u ds evs)"
    by (rule Cons.IH)
  with syncRoleDecision_gated [of env guild w member g u d evs]
  have "gatedChanges env guild w
          (syncRoleDecisions env (syncRoleDecision env w guild member g u d evs)
             guild member g u ds evs)"
    by (rule gatedChanges_trans)
  then show ?case by (simp add: syncRoleDecisions_def)
qed

lemma syncRoleDecisions_skip:
  "syncRoleDecisions env w guild member g u ds evs =
   syncRoleDecisions env w guild member g u
     (filter (\<lambda>d. manageable env guild (d_roleId d)) ds) evs"
proof (induction ds arbitrary: w)
  case Nil
  show ?case by simp
next
  case (Cons d ds)
  show ?case
  proof (cases "manageable env guild (d_roleId d)")
    case True
    with Cons.IH [of "syncRoleDecision env w guild member g u d evs"] show ?thesis
      by (simp add: syncRoleDecisions_def)
  next
    case False
    with Cons.IH [of w] show ?thesis
      by (simp add: syncRoleDecisions_def syncRoleDecision_unmanageable)
  qed
qed

lemma removeManagedRole_gated:
  "gatedChanges env guild w (removeManagedRole env w guild member g u rid)"
  by (simp add: removeManagedRole_def gatedChanges_def manageable_def writeAuditLog_def
      Let_def split: option.splits)

lemma removeManagedRoles_gated:
  "gatedChanges env guild w
     (foldl (\<lambda>w' rid. removeManagedRole env w' guild member g u rid) w rids)"
proof (induction rids arbitrary: w)
  case Nil
  show ?case by (simp add: gatedChanges_refl)
next
  case (Cons rid rids)
  from removeManagedRole_gated [of env guild w member g u rid]
    Cons.IH [of "removeManagedRole env w guild member g u rid"]
  show ?case by (simp add: gatedChanges_trans)
qed

lemma runUserCheck_gated:
  assumes "guildsFetch env g = Some guild"
  shows "gatedChanges env guild w (snd (runUserCheck env w g u preloaded))"
proof -
  let ?rules = "case preloaded of Some rs \<Rightarrow> rs | None \<Rightarrow> activeRules w g"
  obtain fetched w1 where p: "getUsdPrices 60 env w (usdRuleAssetIds ?rules) = (fetched, w1)"
    by (cases "getUsdPrices 60 env w (usdRuleAssetIds ?rules)")
  from getUsdPrices_frame [of 60 env w "usdRuleAssetIds ?rules"] p
  have frame: "auditLog w1 = auditLog w" "roleRequests w1 = roleRequests w"
    by simp_all
  have same: "gatedChanges env guild w w1"
    by (simp add: gatedChanges_def frame)
  have touched: "gatedChanges env guild w (touchLastChecked env w' i)"
    if "gatedChanges env guild w w'" for w' i
    using that by (simp add: gatedChanges_def touchLastChecked_frame)
  have synced: "gatedChanges env guild w
                  (syncRoleDecisions env w1 guild member g u ds evs)" for member ds evs
    using same syncRoleDecisions_gated by (rule gatedChanges_trans)
  show ?thesis
    using assms p same
    by (simp add: runUserCheck_def Let_def gatedChanges_refl touched synced
        split: option.splits)
qed

lemma removeManagedRolesForMember_gated:
  assumes "guildsFetch env g = Some guild"
  shows "gatedChanges env guild w (snd (removeManagedRolesForMember env w g u))"
  using assms
  by (simp add: removeManagedRolesForMember_def Let_def gatedChanges_refl
      removeManagedRoles_gated split: option.splits)
text \<open>
  C6. A decision for a role the bot cannot manage (the role does not resolve, the bot
  is not in the guild's member cache, it lacks the permission to manage roles, or its
  highest role does not compare above the role) leaves the state as it is, so the loop
  over the decisions gives the same result with these decisions left out. Every role
  request that a member check or the removal on unlink sends, and every audit entry
  they write, is for a role the bot can manage; when the guild does not resolve they
  send and write nothing.
\<close>

theorem manageability_gate:
  "(\<forall>role. g_roles guild rid = Some role \<longrightarrow>
      (manageable env guild rid \<longleftrightarrow>
         (\<exists>bot. g_me guild = Some bot \<and> hasManageRoles bot \<and>
                comparePositionTo env (highest bot) role > 0))) \<and>
   (\<not> manageable env guild (d_roleId d) \<longrightarrow>
      syncRoleDecision env w guild member g u d evs = w) \<and>
   syncRoleDecisions env w guild member g u ds evs =
     syncRoleDecisions env w guild member g u
       (filter (\<lambda>d. manageable env guild (d_roleId d)) ds) evs \<and>
   (guildsFetch env g = Some guild \<longrightarrow>
      gatedChanges env guild w (snd (runUserCheck env w g u preloaded)) \<and>
      gatedChanges env guild w (snd (removeManagedRolesForMember env w g u))) \<and>
   (guildsFetch env g = None \<longrightarrow>
      roleRequests (snd (runUserCheck env w g u preloaded)) = roleRequests w \<and>
      auditLog (snd (runUserCheck env w g u preloaded)) = auditLog w \<and>
      snd (removeManagedRolesForMember env w g u) = w)"
proof (intro conjI impI allI)
  fix role assume "g_roles guild rid = Some role"
  then show "manageable env guild rid \<longleftrightarrow>
         (\<exists>bot. g_me guild = Some bot \<and> hasManageRoles bot \<and>
                comparePositionTo env (highest bot) role > 0)"
    by (auto simp add: manageable_def canManageRole_def split: option.splits)
next
  assume "\<not> manageable env guild (d_roleId d)"
  then show "syncRoleDecision env w guild member g u d evs = w"
    by (rule syncRoleDecision_unmanageable)
next
  show "syncRoleDecisions env w guild member g u ds evs =
     syncRoleDecisions env w guild member g u
       (filter (\<lambda>d. manageable env guild (d_roleId d)) ds) evs"
    by (rule syncRoleDecisions_skip)
next
  assume "guildsFetch env g = Some guild"
  then show "gatedChanges env guild w (snd (runUserCheck env w g u preloaded))"
    and "gatedChanges env guild w (snd (removeManagedRolesForMember env w g u))"
    by (rule runUserCheck_gated, rule removeManagedRolesForMember_gated)
next
  assume none: "guildsFetch env g = None"
  let ?rules = "case preloaded of Some rs \<Rightarrow> rs | None \<Rightarrow> activeRules w g"
  obtain fetched w1 where p: "getUsdPrices 60 env w (usdRuleAssetIds ?rules) = (fetched, w1)"
    by (cases "getUsdPrices 60 env w (usdRuleAssetIds ?rules)")
  from getUsdPrices_frame [of 60 env w "usdRuleAssetIds ?rules"] p
  have frame: "auditLog w1 = auditLog w" "roleRequests w1 = roleRequests w"
    by simp_all
  from none p frame
  show "roleRequests (snd (runUserCheck env w g u preloaded)) = roleRequests w"
    and "auditLog (snd (runUserCheck env w g u preloaded)) = auditLog w"
    by (simp_all add: runUserCheck_def Let_def split: option.splits)
  from none show "snd (removeManagedRolesForMember env w g u) = w"
    by (simp add: removeManagedRolesForMember_def)
qed

text \<open>
  The wallet of \<open>u1\<close> satisfies the rules of \<open>R\<close> and not the rule of \<open>Rhigh\<close>, a role
  the member holds and the bot ranks below: \<open>R\<close> is added, \<open>Rhigh\<close> is not touched.
\<close>

theorem manageability_gate_witness:
  "\<not> manageable healthy_env example_guild ''Rhigh'' \<and>
   RoleRemove ''g1'' ''u1'' ''Rhigh'' \<notin>
     set (roleRequests (snd (runUserCheck healthy_env linked_world ''g1'' ''u1'' (Some gate_rules)))) \<and>
   ''Rhigh'' \<notin>
     a_roleId ` set (auditLog (snd (runUserCheck healthy_env linked_world ''g1'' ''u1''
                                      (Some gate_rules)))) \<and>
   syncRoleDecision healthy_env linked_world example_guild \<lparr>m_rolesCache = {''Rhigh''}\<rparr>
       ''g1'' ''u1'' \<lparr>d_roleId = ''Rhigh'', shouldHave = Some False, matchedRuleIds = []\<rparr> []
     = linked_world \<and>
   roleRequests (snd (runUserCheck healthy_env linked_world ''g1'' ''u1'' (Some gate_rules)))
     = [RoleAdd ''g1'' ''u1'' ''R''] \<and>
   map a_action
     (auditLog (snd (runUserCheck healthy_env linked_world ''g1'' ''u1'' (Some gate_rules))))
     = [ROLE_ADDED]"
proof -
  let ?w' = "snd (runUserCheck healthy_env linked_world ''g1'' ''u1'' (Some gate_rules))"
  have run: "roleRequests ?w' = [RoleAdd ''g1'' ''u1'' ''R'']"
    "map a_action (auditLog ?w') = [ROLE_ADDED]"
    by code_simp+
  note gate = manageability_gate
                [of example_guild "''Rhigh''" healthy_env
                    "\<lparr>d_roleId = ''Rhigh'', shouldHave = Some False, matchedRuleIds = []\<rparr>"
                    linked_world "\<lparr>m_rolesCache = {''Rhigh''}\<rparr>" "''g1''" "''u1''" "[]" "[]"
                    "Some gate_rules"]
  have role: "g_roles example_guild ''Rhigh'' = Some \<lparr>role_id = ''Rhigh'', position = 20\<rparr>"
    by (simp add: example_guild_def)
  have "\<not> (\<exists>bot. g_me example_guild = Some bot \<and> hasManageRoles bot \<and>
              comparePositionTo healthy_env (highest bot) \<lparr>role_id = ''Rhigh'', position = 20\<rparr> > 0)"
    by (simp add: example_guild_def healthy_env_def outage_env_def example_env_def)
  with gate role have no: "\<not> manageable healthy_env example_guild ''Rhigh''"
    by blast
  with gate have skip:
    "syncRoleDecision healthy_env linked_world example_guild \<lparr>m_rolesCache = {''Rhigh''}\<rparr>
       ''g1'' ''u1'' \<lparr>d_roleId = ''Rhigh'', shouldHave = Some False, matchedRuleIds = []\<rparr> []
     = linked_world"
    by simp
  have "guildsFetch healthy_env ''g1'' = Some example_guild"
    by (simp add: healthy_env_def outage_env_def)
  with gate have "gatedChanges healthy_env example_guild linked_world ?w'"
    by blast
  moreover have "roleRequests linked_world = [] \<and> auditLog linked_world = []"
    by (simp add: linked_world_def example_world_def)
  ultimately have
    "(\<forall>q \<in> set (roleRequests ?w'). manageable healthy_env example_guild (requestRole q)) \<and>
     (\<forall>a \<in> set (auditLog ?w'). manageable healthy_env example_guild (a_roleId a))"
    by (auto simp add: gatedChanges_def)
  with no have "RoleRemove ''g1'' ''u1'' ''Rhigh'' \<notin> set (roleRequests ?w')"
    and "''Rhigh'' \<notin> a_roleId ` set (auditLog ?w')"
    by auto
  with no skip run show ?thesis by simp
qed
section \<open>Properties of the price cache\<close>

lemma uniqueIds_set: "set (uniqueIds ids) = {i \<in> set ids. i \<noteq> ''''}"
  by (auto simp add: uniqueIds_def)

lemma uniqueIds_distinct: "distinct (uniqueIds ids)"
  by (simp add: uniqueIds_def)

lemma cached_fold_other:
  "i \<notin> q_assetId ` set rows \<Longrightarrow>
     foldl (\<lambda>m row. m(q_assetId row \<mapsto> q_priceUsd row)) m0 rows i = m0 i"
  by (induction rows arbitrary: m0) auto

lemma cached_fold_None:
  "foldl (\<lambda>m row. m(q_assetId row \<mapsto> q_priceUsd row)) m0 rows i = None \<longleftrightarrow>
     m0 i = None \<and> i \<notin> q_assetId ` set rows"
  by (induction rows arbitrary: m0) auto

lemma cached_fold_Some:
  "distinct (map q_assetId rows) \<Longrightarrow> row \<in> set rows \<Longrightarrow>
     foldl (\<lambda>m row. m(q_assetId row \<mapsto> q_priceUsd row)) m0 rows (q_assetId row) =
       Some (q_priceUsd row)"
proof (induction rows arbitrary: m0)
  case Nil
  then show ?case by simp
next
  case (Cons r rows)
  show ?case
  proof (cases "row = r")
    case True
    with Cons.prems have "q_assetId r \<notin> q_assetId ` set rows" by auto
    then have "foldl (\<lambda>m row. m(q_assetId row \<mapsto> q_priceUsd row))
                 (m0(q_assetId r \<mapsto> q_priceUsd r)) rows (q_assetId r) =
               (m0(q_assetId r \<mapsto> q_priceUsd r)) (q_assetId r)"
      by (rule cached_fold_other)
    also have "\<dots> = Some (q_priceUsd r)" by simp
    finally show ?thesis by (simp add: True del: fun_upd_apply)
  next
    case False
    with Cons show ?thesis by simp
  qed
qed

lemma cachedResult_None: "cachedResult rows i = None \<longleftrightarrow> i \<notin> q_assetId ` set rows"
  by (simp add: cachedResult_def cached_fold_None)

lemma cachedRows_distinct:
  "distinct (map q_assetId (priceCache w)) \<Longrightarrow> distinct (map q_assetId (cachedRows t env w ids))"
  by (simp add: cachedRows_def distinct_map_filter)

lemma missing_is_stale:
  "filter (\<lambda>i. cachedResult (cachedRows 60 env w (uniqueIds ids)) i = None) (uniqueIds ids) =
     staleIds env w ids"
  unfolding staleIds_def
  by (rule filter_cong) (auto simp add: cachedResult_None cachedRows_def freshQuote_def)

lemma quotes_fold:
  "foldl (\<lambda>m i. case finiteQuote json i of None \<Rightarrow> m | Some p \<Rightarrow> m(i \<mapsto> p)) m0 ids i =
     (if i \<in> set ids then (case finiteQuote json i of None \<Rightarrow> m0 i | Some p \<Rightarrow> Some p)
      else m0 i)"
  by (induction ids arbitrary: m0) (auto split: option.splits)

lemma upsert_keys:
  "map q_assetId (priceCache_upsert c u) =
     (if q_assetId u \<in> q_assetId ` set c then map q_assetId c
      else map q_assetId c @ [q_assetId u])"
  by (induction c u rule: priceCache_upsert.induct) auto

lemma upsert_distinct:
  "distinct (map q_assetId c) \<Longrightarrow> distinct (map q_assetId (priceCache_upsert c u))"
  by (simp add: upsert_keys)

lemma upsert_filter_other:
  "q_assetId u \<noteq> i \<Longrightarrow>
     filter (\<lambda>r. q_assetId r = i) (priceCache_upsert c u) = filter (\<lambda>r. q_assetId r = i) c"
  by (induction c u rule: priceCache_upsert.induct) auto

lemma upsert_filter_same:
  "distinct (map q_assetId c) \<Longrightarrow>
     filter (\<lambda>r. q_assetId r = q_assetId u) (priceCache_upsert c u) = [u]"
proof (induction c u rule: priceCache_upsert.induct)
  case (1 u)
  show ?case by simp
next
  case (2 r rs u)
  show ?case
  proof (cases "q_assetId r = q_assetId u")
    case True
    with "2.prems" have "q_assetId u \<notin> q_assetId ` set rs" by simp
    then have "\<forall>x \<in> set rs. q_assetId x \<noteq> q_assetId u" by (metis image_eqI)
    then have "filter (\<lambda>x. q_assetId x = q_assetId u) rs = []"
      by (simp add: filter_empty_conv)
    with True show ?thesis by simp
  next
    case False
    with 2 show ?thesis by simp
  qed
qed

lemma upserts_distinct:
  "distinct (map q_assetId c) \<Longrightarrow> distinct (map q_assetId (foldl priceCache_upsert c us))"
  by (induction us arbitrary: c) (simp_all add: upsert_distinct)

lemma upserts_filter_other:
  "i \<notin> q_assetId ` set us \<Longrightarrow>
     filter (\<lambda>r. q_assetId r = i) (foldl priceCache_upsert c us) =
       filter (\<lambda>r. q_assetId r = i) c"
  by (induction us arbitrary: c) (auto simp add: upsert_filter_other)

lemma upserts_filter_same:
  "distinct (map q_assetId c) \<Longrightarrow> distinct (map q_assetId us) \<Longrightarrow> u \<in> set us \<Longrightarrow>
     filter (\<lambda>r. q_assetId r = q_assetId u) (foldl priceCache_upsert c us) = [u]"
proof (induction us arbitrary: c)
  case Nil
  then show ?case by simp
next
  case (Cons x xs)
  show ?case
  proof (cases "u = x")
    case True
    with Cons.prems have "q_assetId x \<notin> q_assetId ` set xs" by auto
    then have "filter (\<lambda>r. q_assetId r = q_assetId x)
                 (foldl priceCache_upsert (priceCache_upsert c x) xs) =
               filter (\<lambda>r. q_assetId r = q_assetId x) (priceCache_upsert c x)"
      by (rule upserts_filter_other)
    with True Cons.prems show ?thesis by (simp add: upsert_filter_same)
  next
    case False
    with Cons.prems have "u \<in> set xs" "distinct (map q_assetId xs)"
      "distinct (map q_assetId (priceCache_upsert c x))"
      by (simp_all add: upsert_distinct)
    with Cons.IH [of "priceCache_upsert c x"] show ?thesis by simp
  qed
qed
lemma updates_keys:
  "map q_assetId
     (List.map_filter
        (\<lambda>i. map_option (\<lambda>p. \<lparr>q_assetId = i, q_priceUsd = p, q_fetchedAt = t\<rparr>)
                (finiteQuote json i)) ids) =
   filter (\<lambda>i. finiteQuote json i \<noteq> None) ids"
  by (induction ids) (auto simp add: map_filter_simps split: option.splits)

lemma updates_member:
  "finiteQuote json i = Some p \<Longrightarrow> i \<in> set ids \<Longrightarrow>
     \<lparr>q_assetId = i, q_priceUsd = p, q_fetchedAt = t\<rparr> \<in>
       set (List.map_filter
              (\<lambda>i. map_option (\<lambda>p. \<lparr>q_assetId = i, q_priceUsd = p, q_fetchedAt = t\<rparr>)
                      (finiteQuote json i)) ids)"
  by (induction ids) (auto simp add: map_filter_simps split: option.splits)

lemma staleIds_set:
  "set (staleIds env w ids) = {i \<in> set ids. i \<noteq> '''' \<and> \<not> freshQuote env w i}"
  by (auto simp add: staleIds_def uniqueIds_set)

lemma staleIds_distinct: "distinct (staleIds env w ids)"
  by (simp add: staleIds_def uniqueIds_distinct)

lemma stale_not_cached:
  assumes "i \<in> set (staleIds env w ids)"
  shows "cachedResult (cachedRows 60 env w (uniqueIds ids)) i = None"
proof -
  from assms have
    "i \<in> set (filter (\<lambda>i. cachedResult (cachedRows 60 env w (uniqueIds ids)) i = None)
                (uniqueIds ids))"
    by (simp only: missing_is_stale)
  then show ?thesis by simp
qed

lemma fresh_cached:
  assumes "distinct (map q_assetId (priceCache w))"
    and "row \<in> set (priceCache w)" and "q_assetId row \<in> set ids" and "q_assetId row \<noteq> ''''"
    and "q_fetchedAt row \<ge> now env - 60000"
  shows "cachedResult (cachedRows 60 env w (uniqueIds ids)) (q_assetId row) =
           Some (q_priceUsd row)"
proof -
  from assms have "row \<in> set (cachedRows 60 env w (uniqueIds ids))"
    by (simp add: cachedRows_def uniqueIds_set)
  moreover have "distinct (map q_assetId (cachedRows 60 env w (uniqueIds ids)))"
    using assms(1) by (rule cachedRows_distinct)
  ultimately show ?thesis
    unfolding cachedResult_def by (simp add: cached_fold_Some)
qed

text \<open>The three ways \<open>getUsdPrices\<close> ends.\<close>

lemma getUsdPrices_all_fresh:
  assumes "staleIds env w ids = []"
  shows "getUsdPrices 60 env w ids =
           (Inr (if uniqueIds ids = [] then Map.empty
                 else cachedResult (cachedRows 60 env w (uniqueIds ids))), w)"
  using assms by (simp add: getUsdPrices_def Let_def missing_is_stale)

lemma stale_uniq: "staleIds env w ids \<noteq> [] \<Longrightarrow> uniqueIds ids \<noteq> []"
  by (auto simp add: staleIds_def)

lemma getUsdPrices_failed:
  assumes "staleIds env w ids \<noteq> []" and "fetchSimplePrice env (staleIds env w ids) = None"
  shows "getUsdPrices 60 env w ids =
           (Inl (Error ''CoinGecko request failed''),
            w\<lparr>priceRequests := priceRequests w @ [staleIds env w ids]\<rparr>)"
  using assms stale_uniq [OF assms(1)]
  by (simp add: getUsdPrices_def Let_def missing_is_stale)

lemma getUsdPrices_fetched:
  assumes "staleIds env w ids \<noteq> []"
    and "fetchSimplePrice env (staleIds env w ids) = Some json"
  shows "getUsdPrices 60 env w ids =
           (Inr (foldl (\<lambda>m i. case finiteQuote json i of None \<Rightarrow> m | Some p \<Rightarrow> m(i \<mapsto> p))
                   (cachedResult (cachedRows 60 env w (uniqueIds ids))) (staleIds env w ids)),
            w\<lparr>priceRequests := priceRequests w @ [staleIds env w ids],
              priceCache :=
                foldl priceCache_upsert (priceCache w)
                  (List.map_filter
                     (\<lambda>i. map_option
                            (\<lambda>p. \<lparr>q_assetId = i, q_priceUsd = p, q_fetchedAt = now env\<rparr>)
                            (finiteQuote json i)) (staleIds env w ids))\<rparr>)"
  using assms stale_uniq [OF assms(1)]
  by (simp add: getUsdPrices_def Let_def missing_is_stale)

lemma getUsdPrices_requests:
  "priceRequests (snd (getUsdPrices 60 env w ids)) =
     priceRequests w @ (if staleIds env w ids = [] then [] else [staleIds env w ids])"
proof (cases "staleIds env w ids = []")
  case True
  then show ?thesis by (simp add: getUsdPrices_all_fresh [OF True])
next
  case False
  show ?thesis
  proof (cases "fetchSimplePrice env (staleIds env w ids)")
    case None
    show ?thesis by (simp add: getUsdPrices_failed [OF False None] False)
  next
    case (Some json)
    show ?thesis by (simp add: getUsdPrices_fetched [OF False Some] False)
  qed
qed

lemma getUsdPrices_distinct:
  assumes "distinct (map q_assetId (priceCache w))"
  shows "distinct (map q_assetId (priceCache (snd (getUsdPrices 60 env w ids))))"
proof (cases "staleIds env w ids = []")
  case True
  with assms show ?thesis by (simp add: getUsdPrices_all_fresh [OF True])
next
  case False
  show ?thesis
  proof (cases "fetchSimplePrice env (staleIds env w ids)")
    case None
    with assms show ?thesis by (simp add: getUsdPrices_failed [OF False None])
  next
    case (Some json)
    with assms show ?thesis
      by (simp add: getUsdPrices_fetched [OF False Some] upserts_distinct)
  qed
qed

lemma getUsdPrices_served:
  assumes "distinct (map q_assetId (priceCache w))"
    and "fst (getUsdPrices 60 env w ids) = Inr prices"
    and "row \<in> set (priceCache w)" and "q_assetId row \<in> set ids" and "q_assetId row \<noteq> ''''"
    and "q_fetchedAt row \<ge> now env - 60000"
  shows "prices (q_assetId row) = Some (q_priceUsd row)"
proof -
  note cached = fresh_cached [OF assms(1) assms(3-6)]
  have "q_assetId row \<in> set (uniqueIds ids)"
    using assms(4,5) by (simp add: uniqueIds_set)
  then have inu: "uniqueIds ids \<noteq> []" by auto
  have fresh: "freshQuote env w (q_assetId row)"
    unfolding freshQuote_def using assms(3,6) by blast
  then have notstale: "q_assetId row \<notin> set (staleIds env w ids)"
    by (simp add: staleIds_set)
  show ?thesis
  proof (cases "staleIds env w ids = []")
    case True
    from assms(2) inu have "prices = cachedResult (cachedRows 60 env w (uniqueIds ids))"
      by (simp add: getUsdPrices_all_fresh [OF True])
    with cached show ?thesis by simp
  next
    case False
    show ?thesis
    proof (cases "fetchSimplePrice env (staleIds env w ids)")
      case None
      from assms(2) show ?thesis by (simp add: getUsdPrices_failed [OF False None])
    next
      case (Some json)
      from assms(2) have
        "prices = foldl (\<lambda>m i. case finiteQuote json i of None \<Rightarrow> m | Some p \<Rightarrow> m(i \<mapsto> p))
                   (cachedResult (cachedRows 60 env w (uniqueIds ids))) (staleIds env w ids)"
        by (simp add: getUsdPrices_fetched [OF False Some])
      then have "prices (q_assetId row) =
                   cachedResult (cachedRows 60 env w (uniqueIds ids)) (q_assetId row)"
        using notstale by (simp only: quotes_fold if_False)
      with cached show ?thesis by simp
    qed
  qed
qed

lemma getUsdPrices_quotes:
  assumes "distinct (map q_assetId (priceCache w))"
    and "staleIds env w ids \<noteq> []"
    and "fetchSimplePrice env (staleIds env w ids) = Some json"
  shows "\<exists>prices. fst (getUsdPrices 60 env w ids) = Inr prices \<and>
           (\<forall>i \<in> set (staleIds env w ids).
              prices i = finiteQuote json i \<and>
              (finiteQuote json i = None \<longrightarrow>
                 filter (\<lambda>r. q_assetId r = i) (priceCache (snd (getUsdPrices 60 env w ids))) =
                 filter (\<lambda>r. q_assetId r = i) (priceCache w)) \<and>
              (\<forall>p. finiteQuote json i = Some p \<longrightarrow>
                 filter (\<lambda>r. q_assetId r = i) (priceCache (snd (getUsdPrices 60 env w ids))) =
                 [\<lparr>q_assetId = i, q_priceUsd = p, q_fetchedAt = now env\<rparr>]))"
proof -
  let ?ups = "List.map_filter
                (\<lambda>i. map_option (\<lambda>p. \<lparr>q_assetId = i, q_priceUsd = p, q_fetchedAt = now env\<rparr>)
                        (finiteQuote json i)) (staleIds env w ids)"
  let ?prices = "foldl (\<lambda>m i. case finiteQuote json i of None \<Rightarrow> m | Some p \<Rightarrow> m(i \<mapsto> p))
                   (cachedResult (cachedRows 60 env w (uniqueIds ids))) (staleIds env w ids)"
  note run = getUsdPrices_fetched [OF assms(2,3)]
  have keys: "map q_assetId ?ups = filter (\<lambda>i. finiteQuote json i \<noteq> None) (staleIds env w ids)"
    by (rule updates_keys)
  have dist: "distinct (map q_assetId ?ups)"
    unfolding keys by (simp add: staleIds_distinct)
  have "\<forall>i \<in> set (staleIds env w ids).
          ?prices i = finiteQuote json i \<and>
          (finiteQuote json i = None \<longrightarrow>
             filter (\<lambda>r. q_assetId r = i) (foldl priceCache_upsert (priceCache w) ?ups) =
             filter (\<lambda>r. q_assetId r = i) (priceCache w)) \<and>
          (\<forall>p. finiteQuote json i = Some p \<longrightarrow>
             filter (\<lambda>r. q_assetId r = i) (foldl priceCache_upsert (priceCache w) ?ups) =
             [\<lparr>q_assetId = i, q_priceUsd = p, q_fetchedAt = now env\<rparr>])"
  proof (intro ballI conjI impI allI)
    fix i assume i: "i \<in> set (staleIds env w ids)"
    have "?prices i =
            (case finiteQuote json i of
               None \<Rightarrow> cachedResult (cachedRows 60 env w (uniqueIds ids)) i
             | Some p \<Rightarrow> Some p)"
      using i by (simp only: quotes_fold if_True)
    with stale_not_cached [OF i]
    show "?prices i = finiteQuote json i"
      by (cases "finiteQuote json i") simp_all
    {
      assume "finiteQuote json i = None"
      then have "i \<notin> set (map q_assetId ?ups)" unfolding keys by simp
      then have "i \<notin> q_assetId ` set ?ups" by simp
      then show "filter (\<lambda>r. q_assetId r = i) (foldl priceCache_upsert (priceCache w) ?ups) =
                 filter (\<lambda>r. q_assetId r = i) (priceCache w)"
        by (rule upserts_filter_other)
    }
    {
      fix p assume "finiteQuote json i = Some p"
      then have "\<lparr>q_assetId = i, q_priceUsd = p, q_fetchedAt = now env\<rparr> \<in> set ?ups"
        using i by (rule updates_member)
      from upserts_filter_same [OF assms(1) dist this]
      show "filter (\<lambda>r. q_assetId r = i) (foldl priceCache_upsert (priceCache w) ?ups) =
             [\<lparr>q_assetId = i, q_priceUsd = p, q_fetchedAt = now env\<rparr>]"
        by simp
    }
  qed
  then show ?thesis unfolding run by simp
qed

text \<open>
  C7. Let the cache have one row per asset id. \<open>getUsdPrices\<close> sends at most one
  request to the provider, and that request lists exactly the requested non-empty ids
  that have no stored quote of the last 60 seconds, each once; with no such id it sends
  none and returns from the cache. A requested id with such a quote is never sent and
  gets the stored price whenever a map is returned. When the provider answers, an id
  without a finite number in the answer has no entry in the map and its cache rows stay
  as they were, and an id with a finite number gets that price and exactly one cache
  row, stamped with the current time. When the request fails the call fails and the
  cache is unchanged. The cache keeps one row per asset id.
\<close>

theorem price_cache_contract:
  assumes "distinct (map q_assetId (priceCache w))"
  shows
    "set (staleIds env w ids) = {i \<in> set ids. i \<noteq> '''' \<and> \<not> freshQuote env w i} \<and>
     distinct (staleIds env w ids) \<and>
     priceRequests (snd (getUsdPrices 60 env w ids)) =
       priceRequests w @ (if staleIds env w ids = [] then [] else [staleIds env w ids]) \<and>
     (\<forall>prices row.
        fst (getUsdPrices 60 env w ids) = Inr prices \<and> row \<in> set (priceCache w) \<and>
        q_assetId row \<in> set ids \<and> q_assetId row \<noteq> '''' \<and>
        q_fetchedAt row \<ge> now env - 60000 \<longrightarrow>
          prices (q_assetId row) = Some (q_priceUsd row)) \<and>
     (staleIds env w ids = [] \<longrightarrow> (\<exists>prices. getUsdPrices 60 env w ids = (Inr prices, w))) \<and>
     (\<forall>json.
        staleIds env w ids \<noteq> [] \<and> fetchSimplePrice env (staleIds env w ids) = Some json \<longrightarrow>
          (\<exists>prices. fst (getUsdPrices 60 env w ids) = Inr prices \<and>
             (\<forall>i \<in> set (staleIds env w ids).
                prices i = finiteQuote json i \<and>
                (finiteQuote json i = None \<longrightarrow>
                   filter (\<lambda>r. q_assetId r = i)
                     (priceCache (snd (getUsdPrices 60 env w ids))) =
                   filter (\<lambda>r. q_assetId r = i) (priceCache w)) \<and>
                (\<forall>p. finiteQuote json i = Some p \<longrightarrow>
                   filter (\<lambda>r. q_assetId r = i)
                     (priceCache (snd (getUsdPrices 60 env w ids))) =
                   [\<lparr>q_assetId = i, q_priceUsd = p, q_fetchedAt = now env\<rparr>])))) \<and>
     (\<forall>json i. finiteQuote json i = None \<longleftrightarrow> (\<forall>p. json i \<noteq> Some (JNum p))) \<and>
     (staleIds env w ids \<noteq> [] \<and> fetchSimplePrice env (staleIds env w ids) = None \<longrightarrow>
        (\<exists>e. fst (getUsdPrices 60 env w ids) = Inl e) \<and>
        priceCache (snd (getUsdPrices 60 env w ids)) = priceCache w) \<and>
     distinct (map q_assetId (priceCache (snd (getUsdPrices 60 env w ids))))"
proof (intro conjI)
  show "set (staleIds env w ids) = {i \<in> set ids. i \<noteq> '''' \<and> \<not> freshQuote env w i}"
    by (rule staleIds_set)
  show "distinct (staleIds env w ids)" by (rule staleIds_distinct)
  show "priceRequests (snd (getUsdPrices 60 env w ids)) =
       priceRequests w @ (if staleIds env w ids = [] then [] else [staleIds env w ids])"
    by (rule getUsdPrices_requests)
  show "\<forall>prices row.
        fst (getUsdPrices 60 env w ids) = Inr prices \<and> row \<in> set (priceCache w) \<and>
        q_assetId row \<in> set ids \<and> q_assetId row \<noteq> '''' \<and>
        q_fetchedAt row \<ge> now env - 60000 \<longrightarrow>
          prices (q_assetId row) = Some (q_priceUsd row)"
    using getUsdPrices_served [OF assms] by blast
  show "staleIds env w ids = [] \<longrightarrow> (\<exists>prices. getUsdPrices 60 env w ids = (Inr prices, w))"
    using getUsdPrices_all_fresh [of env w ids] by simp
  show "\<forall>json.
        staleIds env w ids \<noteq> [] \<and> fetchSimplePrice env (staleIds env w ids) = Some json \<longrightarrow>
          (\<exists>prices. fst (getUsdPrices 60 env w ids) = Inr prices \<and>
             (\<forall>i \<in> set (staleIds env w ids).
                prices i = finiteQuote json i \<and>
                (finiteQuote json i = None \<longrightarrow>
                   filter (\<lambda>r. q_assetId r = i)
                     (priceCache (snd (getUsdPrices 60 env w ids))) =
                   filter (\<lambda>r. q_assetId r = i) (priceCache w)) \<and>
                (\<forall>p. finiteQuote json i = Some p \<longrightarrow>
                   filter (\<lambda>r. q_assetId r = i)
                     (priceCache (snd (getUsdPrices 60 env w ids))) =
                   [\<lparr>q_assetId = i, q_priceUsd = p, q_fetchedAt = now env\<rparr>])))"
    using getUsdPrices_quotes [OF assms] by blast
  show "\<forall>json i. finiteQuote json i = None \<longleftrightarrow> (\<forall>p. json i \<noteq> Some (JNum p))"
    by (auto simp add: finiteQuote_def split: option.splits jsval.splits)
  show "staleIds env w ids \<noteq> [] \<and> fetchSimplePrice env (staleIds env w ids) = None \<longrightarrow>
        (\<exists>e. fst (getUsdPrices 60 env w ids) = Inl e) \<and>
        priceCache (snd (getUsdPrices 60 env w ids)) = priceCache w"
    using getUsdPrices_failed [of env w ids] by auto
  show "distinct (map q_assetId (priceCache (snd (getUsdPrices 60 env w ids))))"
    using assms by (rule getUsdPrices_distinct)
qed
text \<open>
  Six ids are requested, \<open>btc\<close> twice. \<open>sol\<close> comes from the cache; one request goes
  out for \<open>btc\<close>, \<open>doge\<close>, \<open>old\<close> and \<open>xrp\<close>; \<open>doge\<close> and \<open>xrp\<close> get no price and no
  row; the row of \<open>old\<close> is replaced and a row for \<open>btc\<close> is added.
\<close>

theorem price_cache_contract_witness:
  "priceRequests (snd (getUsdPrices 60 price_env price_world price_request)) =
     [[''btc'', ''doge'', ''old'', ''xrp'']] \<and>
   (\<exists>prices. fst (getUsdPrices 60 price_env price_world price_request) = Inr prices \<and>
      prices ''sol'' = Some 150 \<and> prices ''btc'' = Some 60000 \<and> prices ''old'' = Some 2 \<and>
      prices ''doge'' = None \<and> prices ''xrp'' = None) \<and>
   priceCache (snd (getUsdPrices 60 price_env price_world price_request)) =
     [\<lparr>q_assetId = ''sol'', q_priceUsd = 150, q_fetchedAt = 90000\<rparr>,
      \<lparr>q_assetId = ''old'', q_priceUsd = 2, q_fetchedAt = 100000\<rparr>,
      \<lparr>q_assetId = ''btc'', q_priceUsd = 60000, q_fetchedAt = 100000\<rparr>]"
proof -
  let ?R = "getUsdPrices 60 price_env price_world price_request"
  let ?json = "[''btc'' \<mapsto> JNum 60000, ''doge'' \<mapsto> JNonFinite True, ''old'' \<mapsto> JNum 2]"
  have d: "distinct (map q_assetId (priceCache price_world))"
    by (simp add: price_world_def)
  note c = price_cache_contract [OF d, of price_env price_request]
  note c_requests = c [THEN conjunct2, THEN conjunct2, THEN conjunct1]
  note c_served = c [THEN conjunct2, THEN conjunct2, THEN conjunct2, THEN conjunct1]
  note c_quotes = c [THEN conjunct2, THEN conjunct2, THEN conjunct2, THEN conjunct2,
                     THEN conjunct2, THEN conjunct1]
  have st: "staleIds price_env price_world price_request = [''btc'', ''doge'', ''old'', ''xrp'']"
    by code_simp
  have old: "priceRequests price_world = []"
    by (simp add: price_world_def example_world_def)
  from c_requests have reqs: "priceRequests (snd ?R) = [[''btc'', ''doge'', ''old'', ''xrp'']]"
    by (simp add: st old)
  have fetch: "fetchSimplePrice price_env (staleIds price_env price_world price_request) =
                 Some ?json"
    by (simp add: price_env_def)
  have ne: "staleIds price_env price_world price_request \<noteq> []"
    by (simp add: st)
  from c_quotes ne fetch have
    "\<exists>prices. fst ?R = Inr prices \<and>
       (\<forall>i \<in> set (staleIds price_env price_world price_request).
          prices i = finiteQuote ?json i \<and>
          (finiteQuote ?json i = None \<longrightarrow>
             filter (\<lambda>r. q_assetId r = i) (priceCache (snd ?R)) =
             filter (\<lambda>r. q_assetId r = i) (priceCache price_world)) \<and>
          (\<forall>p. finiteQuote ?json i = Some p \<longrightarrow>
             filter (\<lambda>r. q_assetId r = i) (priceCache (snd ?R)) =
             [\<lparr>q_assetId = i, q_priceUsd = p, q_fetchedAt = now price_env\<rparr>]))"
    by (elim allE [where x = "?json"] impE) (rule conjI)
  then obtain prices where p: "fst ?R = Inr prices"
    and q: "\<forall>i \<in> set (staleIds price_env price_world price_request).
              prices i = finiteQuote ?json i"
    by blast
  from q have fetched: "prices ''btc'' = Some 60000" "prices ''old'' = Some 2"
    "prices ''doge'' = None" "prices ''xrp'' = None"
    by (simp_all add: st finiteQuote_def)
  have row: "\<lparr>q_assetId = ''sol'', q_priceUsd = 150, q_fetchedAt = 90000\<rparr>
               \<in> set (priceCache price_world)"
    by (simp add: price_world_def)
  have "fst ?R = Inr prices \<and>
        \<lparr>q_assetId = ''sol'', q_priceUsd = 150, q_fetchedAt = 90000\<rparr> \<in> set (priceCache price_world) \<and>
        q_assetId \<lparr>q_assetId = ''sol'', q_priceUsd = 150, q_fetchedAt = 90000\<rparr> \<in> set price_request \<and>
        q_assetId \<lparr>q_assetId = ''sol'', q_priceUsd = 150, q_fetchedAt = 90000\<rparr> \<noteq> '''' \<and>
        q_fetchedAt \<lparr>q_assetId = ''sol'', q_priceUsd = 150, q_fetchedAt = 90000\<rparr>
          \<ge> now price_env - 60000"
    using p row by (simp add: price_request_def price_env_def)
  with c_served have "prices (q_assetId \<lparr>q_assetId = ''sol'', q_priceUsd = 150, q_fetchedAt = 90000\<rparr>) =
                 Some (q_priceUsd \<lparr>q_assetId = ''sol'', q_priceUsd = 150, q_fetchedAt = 90000\<rparr>)"
    by blast
  then have served: "prices ''sol'' = Some 150" by simp
  have cache: "priceCache (snd ?R) =
     [\<lparr>q_assetId = ''sol'', q_priceUsd = 150, q_fetchedAt = 90000\<rparr>,
      \<lparr>q_assetId = ''old'', q_priceUsd = 2, q_fetchedAt = 100000\<rparr>,
      \<lparr>q_assetId = ''btc'', q_priceUsd = 60000, q_fetchedAt = 100000\<rparr>]"
    by code_simp
  from reqs p fetched served cache show ?thesis by blast
qed
section \<open>Properties of the NFT counting\<close>

lemma groupSignal_passes: "groupSignal g \<Longrightarrow> passesGroupTest g"
  by (auto simp add: groupSignal_def passesGroupTest_def)

lemma firstVerifiedGroup_none:
  "(\<forall>g \<in> set gs. \<not> passesGroupTest g) \<Longrightarrow> firstVerifiedGroup gs = None"
  by (induction gs) (auto simp add: passesGroupTest_def split: jsval.splits)

lemma firstVerifiedGroup_first:
  assumes "\<forall>g \<in> set gs1. \<not> passesGroupTest g" and "passesGroupTest g"
    and "group_value g = JStr v"
  shows "firstVerifiedGroup (gs1 @ g # gs2) = Some v"
  using assms
  by (induction gs1) (auto simp add: passesGroupTest_def split: jsval.splits)

lemma firstVerifiedGroup_some:
  "firstVerifiedGroup gs = Some v \<Longrightarrow>
     \<exists>g \<in> set gs. passesGroupTest g \<and> group_value g = JStr v"
  by (induction gs) (auto simp add: passesGroupTest_def split: jsval.splits if_splits)

lemma firstVerifiedGroup_passes:
  "g \<in> set gs \<Longrightarrow> passesGroupTest g \<Longrightarrow> firstVerifiedGroup gs \<noteq> None"
  by (induction gs) (auto simp add: passesGroupTest_def split: jsval.splits)

lemma firstVerifiedGroup_empty:
  "(case dropWhile (\<lambda>g. \<not> passesGroupTest g) gs of
      [] \<Rightarrow> False
    | g # rest \<Rightarrow> group_value g = JStr '''') \<longleftrightarrow>
   firstVerifiedGroup gs = Some ''''"
  by (induction gs) (auto simp add: passesGroupTest_def split: jsval.splits)

lemma emptyValueFirst_iff:
  "emptyValueFirst a \<longleftrightarrow> firstVerifiedGroup (nullish (grouping a) []) = Some ''''"
  unfolding emptyValueFirst_def by (rule firstVerifiedGroup_empty)

text \<open>Without a signal an asset has no key.\<close>

lemma key_needs_signal:
  assumes "truthy (extractVerifiedCollectionAddress a)"
  shows "verificationSignal a"
proof (cases "firstVerifiedGroup (nullish (grouping a) [])")
  case None
  with assms have "metadataSignal a"
    by (auto simp add: extractVerifiedCollectionAddress_def metadataSignal_def
        split: option.splits if_splits)
  then show ?thesis by (simp add: verificationSignal_def)
next
  case (Some v)
  with assms have v: "v \<noteq> ''''"
    by (simp add: extractVerifiedCollectionAddress_def)
  from firstVerifiedGroup_some [OF Some] obtain g
    where g: "g \<in> set (nullish (grouping a) [])" "passesGroupTest g" "group_value g = JStr v"
    by blast
  from g(2,3) v have "groupSignal g"
    by (auto simp add: groupSignal_def passesGroupTest_def)
  with g(1) show ?thesis
    by (auto simp add: verificationSignal_def list_ex_iff)
qed

text \<open>With a signal an asset has a key, unless an empty group value comes first.\<close>

lemma signal_gives_key:
  assumes "verificationSignal a" and "\<not> emptyValueFirst a"
  shows "truthy (extractVerifiedCollectionAddress a)"
proof (cases "firstVerifiedGroup (nullish (grouping a) [])")
  case None
  have "\<not> groupSignal g" if "g \<in> set (nullish (grouping a) [])" for g
    using firstVerifiedGroup_passes [OF that] groupSignal_passes [of g] None by blast
  with assms(1) have "metadataSignal a"
    by (auto simp add: verificationSignal_def list_ex_iff)
  with None show ?thesis
    by (auto simp add: extractVerifiedCollectionAddress_def metadataSignal_def
        split: option.splits)
next
  case (Some v)
  with assms(2) have "v \<noteq> ''''"
    by (auto simp add: emptyValueFirst_iff)
  with Some show ?thesis
    by (simp add: extractVerifiedCollectionAddress_def)
qed

lemma countItem_at:
  "countItem counts item k =
     (if extractVerifiedCollectionAddress item = k \<and> truthy k
      then Some (nullish (counts k) 0 + 1) else counts k)"
  by (auto simp add: countItem_def Let_def)

text \<open>How the count of one key changes over the items of a page.\<close>

lemma countItems_at:
  "countItems counts items k =
     (if \<not> truthy k \<or> filter (\<lambda>a. extractVerifiedCollectionAddress a = k) items = []
      then counts k
      else Some (nullish (counts k) 0 +
                 int (length (filter (\<lambda>a. extractVerifiedCollectionAddress a = k) items))))"
proof (induction items arbitrary: counts)
  case Nil
  show ?case by (simp add: countItems_def)
next
  case (Cons a items)
  have step: "countItems counts (a # items) = countItems (countItem counts a) items"
    by (simp add: countItems_def)
  show ?case
    unfolding step Cons.IH
    by (simp add: countItem_at)
qed

lemma countItems_append:
  "countItems counts (xs @ ys) = countItems (countItems counts xs) ys"
  by (simp add: countItems_def)

lemma countItems_onceEach: "countItems Map.empty items = onceEach items"
proof
  fix k
  have "list_ex (\<lambda>a. extractVerifiedCollectionAddress a = k) items \<longleftrightarrow>
          filter (\<lambda>a. extractVerifiedCollectionAddress a = k) items \<noteq> []"
    by (auto simp add: list_ex_iff filter_empty_conv)
  then show "countItems Map.empty items k = onceEach items k"
    by (simp add: countItems_at onceEach_def)
qed

text \<open>The scan over full pages followed by a short one.\<close>

lemma fetchNftPages_run:
  assumes "\<forall>k < length full. das (p + k) = Some (full ! k) \<and> length (full ! k) \<ge> 1000"
    and "das (p + length full) = Some short" and "length short < 1000"
  shows "fetchNftPages das p counts = Some (Inr (countItems counts (concat full @ short)))"
  using assms
proof (induction full arbitrary: p counts)
  case Nil
  then show ?case
    by (subst fetchNftPages.simps) simp
next
  case (Cons page full)
  from Cons.prems(1) have here: "das p = Some page" "length page \<ge> 1000"
    by auto
  have rest: "\<forall>k < length full. das (Suc p + k) = Some (full ! k) \<and> length (full ! k) \<ge> 1000"
  proof (intro allI impI)
    fix k assume "k < length full"
    then have "Suc k < length (page # full)" by simp
    with Cons.prems(1) have
      "das (p + Suc k) = Some ((page # full) ! Suc k) \<and> length ((page # full) ! Suc k) \<ge> 1000"
      by blast
    then show "das (Suc p + k) = Some (full ! k) \<and> length (full ! k) \<ge> 1000" by simp
  qed
  from Cons.prems(2) have last: "das (Suc p + length full) = Some short" by simp
  from Cons.IH [OF rest last Cons.prems(3)]
  have "fetchNftPages das (Suc p) (countItems counts page) =
          Some (Inr (countItems (countItems counts page) (concat full @ short)))" .
  then show ?case
    using here by (subst fetchNftPages.simps) (simp add: countItems_append)
qed

text \<open>
  C8. An asset carries a verification signal when a grouping entry has the \<open>group_key\<close>
  \<open>"collection"\<close>, a non-empty string as its value and the boolean \<open>true\<close> as its
  \<open>verified\<close> or \<open>collection_verified\<close> flag, or when the metadata's \<open>verified\<close> and
  \<open>key\<close> are both truthy. An asset without a signal is skipped. An asset with a signal
  is counted, once, provided that the first grouping entry passing the group test does
  not have the empty string as its value. The key it is counted under is the value of
  the first grouping entry that passes the test; only when no entry passes is it the
  metadata's key. Over the items of a page the count of every key grows by the number
  of items with that key, and a scan that ends returns, starting from no counts, for
  every key the number of items of its pages with that key: every item counts once.
\<close>

theorem nft_counting:
  "(\<not> verificationSignal a \<longrightarrow> countItem counts a = counts) \<and>
   (verificationSignal a \<and> \<not> emptyValueFirst a \<longrightarrow>
      truthy (extractVerifiedCollectionAddress a) \<and>
      countItem counts a =
        counts(extractVerifiedCollectionAddress a \<mapsto>
                 (case counts (extractVerifiedCollectionAddress a) of
                    None \<Rightarrow> 0 | Some n \<Rightarrow> n) + 1)) \<and>
   (\<forall>gs1 g v gs2.
      nullish (grouping a) [] = gs1 @ g # gs2 \<and> (\<forall>g' \<in> set gs1. \<not> passesGroupTest g') \<and>
      passesGroupTest g \<and> group_value g = JStr v \<longrightarrow>
        extractVerifiedCollectionAddress a = JStr v) \<and>
   ((\<forall>g \<in> set (nullish (grouping a) []). \<not> passesGroupTest g) \<longrightarrow>
      extractVerifiedCollectionAddress a = metadataKey a) \<and>
   countItems counts items k =
     (if \<not> truthy k \<or> filter (\<lambda>a. extractVerifiedCollectionAddress a = k) items = []
      then counts k
      else Some ((case counts k of None \<Rightarrow> 0 | Some n \<Rightarrow> n) +
                 int (length (filter (\<lambda>a. extractVerifiedCollectionAddress a = k) items)))) \<and>
   ((\<forall>j < length full. das (1 + j) = Some (full ! j) \<and> length (full ! j) \<ge> 1000) \<and>
    das (1 + length full) = Some short \<and> length short < 1000 \<longrightarrow>
      fetchNftCountsByCollection das = Some (Inr (onceEach (concat full @ short))))"
proof (intro conjI allI impI)
  assume "\<not> verificationSignal a"
  with key_needs_signal [of a] have "\<not> truthy (extractVerifiedCollectionAddress a)"
    by blast
  then show "countItem counts a = counts"
    by (simp add: countItem_def Let_def)
next
  assume "verificationSignal a \<and> \<not> emptyValueFirst a"
  then show "truthy (extractVerifiedCollectionAddress a)"
    by (simp add: signal_gives_key)
  then show "countItem counts a =
        counts(extractVerifiedCollectionAddress a \<mapsto>
                 (case counts (extractVerifiedCollectionAddress a) of
                    None \<Rightarrow> 0 | Some n \<Rightarrow> n) + 1)"
    by (simp add: countItem_def Let_def nullish_def)
next
  fix gs1 g v gs2
  assume "nullish (grouping a) [] = gs1 @ g # gs2 \<and> (\<forall>g' \<in> set gs1. \<not> passesGroupTest g') \<and>
      passesGroupTest g \<and> group_value g = JStr v"
  then have "firstVerifiedGroup (nullish (grouping a) []) = Some v"
    by (simp add: firstVerifiedGroup_first)
  then show "extractVerifiedCollectionAddress a = JStr v"
    by (simp add: extractVerifiedCollectionAddress_def)
next
  assume "\<forall>g \<in> set (nullish (grouping a) []). \<not> passesGroupTest g"
  then have "firstVerifiedGroup (nullish (grouping a) []) = None"
    by (rule firstVerifiedGroup_none)
  then show "extractVerifiedCollectionAddress a = metadataKey a"
    by (simp add: extractVerifiedCollectionAddress_def metadataKey_def)
next
  show "countItems counts items k =
     (if \<not> truthy k \<or> filter (\<lambda>a. extractVerifiedCollectionAddress a = k) items = []
      then counts k
      else Some ((case counts k of None \<Rightarrow> 0 | Some n \<Rightarrow> n) +
                 int (length (filter (\<lambda>a. extractVerifiedCollectionAddress a = k) items))))"
    by (simp add: countItems_at nullish_def)
next
  assume "(\<forall>j < length full. das (1 + j) = Some (full ! j) \<and> length (full ! j) \<ge> 1000) \<and>
    das (1 + length full) = Some short \<and> length short < 1000"
  then have "fetchNftPages das 1 Map.empty =
               Some (Inr (countItems Map.empty (concat full @ short)))"
    by (intro fetchNftPages_run) simp_all
  then show "fetchNftCountsByCollection das = Some (Inr (onceEach (concat full @ short)))"
    by (simp add: fetchNftCountsByCollection_def countItems_onceEach)
qed

text \<open>
  A page of six assets. The asset verified in its grouping and the asset verified by
  its metadata count for \<open>C\<close>, and the asset whose metadata flag is the string
  \<open>"false"\<close> counts for \<open>K\<close>. The asset flagged with the number 1 in its grouping, the
  asset whose only verified entry has the empty value and the asset without a
  collection are skipped.
\<close>

theorem nft_counting_witness:
  "extractVerifiedCollectionAddress asset_grouped = JStr ''C'' \<and>
   extractVerifiedCollectionAddress asset_metadata = JStr ''C'' \<and>
   countItem Map.empty asset_flag_string = [JStr ''K'' \<mapsto> 1] \<and>
   countItem Map.empty asset_flag_one = Map.empty \<and>
   countItem Map.empty asset_empty_only = Map.empty \<and>
   countItem Map.empty asset_plain = Map.empty \<and>
   (\<exists>counts. fetchNftCountsByCollection one_page = Some (Inr counts) \<and>
      counts (JStr ''C'') = Some 2 \<and> counts (JStr ''K'') = Some 1 \<and>
      counts (JStr '''') = None \<and> counts JNull = None)"
proof -
  let ?g = "\<lparr>group_key = JStr ''collection'', group_value = JStr ''C'',
             verified = JBool True, collection_verified = JUndefined\<rparr>"
  let ?page = "[asset_grouped, asset_plain, asset_metadata, asset_flag_one,
                asset_flag_string, asset_empty_only]"
  note count = nft_counting [where counts = Map.empty and full = "[]" and das = one_page
      and short = ?page and items = ?page]
  have g: "nullish (grouping asset_grouped) [] = [] @ ?g # [] \<and>
           (\<forall>g' \<in> set []. \<not> passesGroupTest g') \<and> passesGroupTest ?g \<and>
           group_value ?g = JStr ''C''"
    by (simp add: asset_grouped_def passesGroupTest_def)
  from count [where a = asset_grouped] g
  have a: "extractVerifiedCollectionAddress asset_grouped = JStr ''C''"
    by blast
  have m: "\<forall>g \<in> set (nullish (grouping asset_metadata) []). \<not> passesGroupTest g"
    by (simp add: asset_metadata_def)
  from count [where a = asset_metadata] m
  have "extractVerifiedCollectionAddress asset_metadata = metadataKey asset_metadata"
    by blast
  then have b: "extractVerifiedCollectionAddress asset_metadata = JStr ''C''"
    by (simp add: metadataKey_def asset_metadata_def)
  have s: "\<forall>g \<in> set (nullish (grouping asset_flag_string) []). \<not> passesGroupTest g"
    by (simp add: asset_flag_string_def)
  from count [where a = asset_flag_string] s
  have "extractVerifiedCollectionAddress asset_flag_string = metadataKey asset_flag_string"
    by blast
  then have c: "extractVerifiedCollectionAddress asset_flag_string = JStr ''K''"
    by (simp add: metadataKey_def asset_flag_string_def)
  have "verificationSignal asset_flag_string \<and> \<not> emptyValueFirst asset_flag_string"
    by (simp add: verificationSignal_def metadataSignal_def emptyValueFirst_def
        asset_flag_string_def)
  with count [where a = asset_flag_string]
  have "countItem Map.empty asset_flag_string =
          Map.empty(extractVerifiedCollectionAddress asset_flag_string \<mapsto>
            (case Map.empty (extractVerifiedCollectionAddress asset_flag_string) of
               None \<Rightarrow> 0 | Some n \<Rightarrow> n) + 1)"
    by blast
  then have d: "countItem Map.empty asset_flag_string = [JStr ''K'' \<mapsto> 1]"
    by (simp add: c)
  have "\<not> verificationSignal asset_flag_one"
    by (simp add: verificationSignal_def metadataSignal_def groupSignal_def asset_flag_one_def)
  with count [where a = asset_flag_one]
  have e: "countItem Map.empty asset_flag_one = Map.empty"
    by blast
  have "\<not> verificationSignal asset_empty_only"
    by (simp add: verificationSignal_def metadataSignal_def groupSignal_def
        asset_empty_only_def)
  with count [where a = asset_empty_only]
  have f: "countItem Map.empty asset_empty_only = Map.empty"
    by blast
  have "\<not> verificationSignal asset_plain"
    by (simp add: verificationSignal_def metadataSignal_def asset_plain_def)
  with count [where a = asset_plain]
  have p: "countItem Map.empty asset_plain = Map.empty"
    by blast
  have scan: "(\<forall>j < length []. one_page (1 + j) = Some ([] ! j) \<and> length ([] ! j) \<ge> 1000) \<and>
    one_page (1 + length []) = Some ?page \<and> length ?page < 1000"
    by (simp add: one_page_def)
  with count [where a = asset_grouped]
  have run: "fetchNftCountsByCollection one_page = Some (Inr (onceEach (concat [] @ ?page)))"
    by blast
  have keys: "extractVerifiedCollectionAddress asset_plain = JNull"
    "extractVerifiedCollectionAddress asset_flag_one = JNull"
    "extractVerifiedCollectionAddress asset_empty_only = JStr ''''"
    by (simp_all add: extractVerifiedCollectionAddress_def asset_plain_def asset_flag_one_def
        asset_empty_only_def)
  have "onceEach ?page (JStr ''C'') = Some 2" "onceEach ?page (JStr ''K'') = Some 1"
    "onceEach ?page (JStr '''') = None" "onceEach ?page JNull = None"
    by (simp_all add: onceEach_def a b c keys)
  with run a b d e f p show ?thesis by simp
qed

text \<open>
  The signal as the specification words it differs from the one the code looks for. An
  asset whose grouping flag is the truthy number 1 and an asset whose only verified
  grouping entry has the empty string as its value carry the specification's signal
  and are not counted. An asset whose metadata flag is the string \<open>"false"\<close>, which is
  truthy and is not \<open>true\<close>, does not carry it and is counted.
\<close>

theorem nft_signal_counterexample:
  "specVerificationSignal asset_flag_one \<and>
   countItems Map.empty [asset_flag_one] = Map.empty \<and>
   specVerificationSignal asset_empty_only \<and>
   countItems Map.empty [asset_empty_only] = Map.empty \<and>
   \<not> specVerificationSignal asset_flag_string \<and>
   countItems Map.empty [asset_flag_string] = [JStr ''K'' \<mapsto> 1]"
  by (simp add: specVerificationSignal_def countItems_def countItem_def
      extractVerifiedCollectionAddress_def asset_flag_one_def asset_empty_only_def
      asset_flag_string_def)

end
